theory Spec2Isabelle
  imports Main
begin

section \<open>Text and errors\<close>

text \<open>
  Strings that the code inspects character by character (header values, header names,
  tokens, key identifiers, provider error codes, scope claims) are modelled as
  \<^typ>\<open>string\<close>: a list of characters with code points below 256, read as Latin-1.
  Message texts are only built and passed along; most of them are Japanese literals, so
  a message is a list of Unicode code points.
\<close>

type_synonym utext = "nat list"

definition ascii :: "string \<Rightarrow> utext" where
  "ascii s = map of_char s"

text \<open>The message literals of \<open>utils/auth.py\<close> and \<open>utils/cognito.py\<close>, code point by code point.\<close>

definition msg_token_invalid :: utext where
  "msg_token_invalid = [0x30C8, 0x30FC, 0x30AF, 0x30F3, 0x304C, 0x7121, 0x52B9, 0x3067, 0x3059]"

definition msg_token_expired :: utext where
  "msg_token_expired = [0x30C8, 0x30FC, 0x30AF, 0x30F3, 0x306E, 0x6709, 0x52B9, 0x671F, 0x9650,
     0x304C, 0x5207, 0x308C, 0x3066, 0x3044, 0x307E, 0x3059]"

definition msg_token_check_failed :: utext where
  "msg_token_check_failed = [0x30C8, 0x30FC, 0x30AF, 0x30F3, 0x691C, 0x8A3C, 0x4E2D, 0x306B,
     0x30A8, 0x30E9, 0x30FC, 0x304C, 0x767A, 0x751F, 0x3057, 0x307E, 0x3057, 0x305F, 0x3A, 0x20]"

definition msg_jwks_failed :: utext where
  "msg_jwks_failed = [0x4A, 0x57, 0x4B, 0x53, 0x53D6, 0x5F97, 0x306B, 0x5931, 0x6557, 0x3057,
     0x307E, 0x3057, 0x305F, 0x3A, 0x20]"

definition msg_auth_required :: utext where
  "msg_auth_required = [0x8A8D, 0x8A3C, 0x304C, 0x5FC5, 0x8981, 0x3067, 0x3059]"

definition msg_header_invalid :: utext where
  "msg_header_invalid = [0x8A8D, 0x8A3C, 0x30D8, 0x30C3, 0x30C0, 0x30FC, 0x304C, 0x7121, 0x52B9,
     0x3067, 0x3059]"

definition msg_authentication_failed :: utext where
  "msg_authentication_failed = [0x8A8D, 0x8A3C, 0x306B, 0x5931, 0x6557, 0x3057, 0x307E, 0x3057,
     0x305F]"

definition msg_access_denied :: utext where
  "msg_access_denied = [0x30A2, 0x30AF, 0x30BB, 0x30B9, 0x304C, 0x62D2, 0x5426, 0x3055, 0x308C,
     0x307E, 0x3057, 0x305F]"

definition msg_bad_request :: utext where
  "msg_bad_request = [0x30EA, 0x30AF, 0x30A8, 0x30B9, 0x30C8, 0x304C, 0x4E0D, 0x6B63, 0x3067,
     0x3059, 0x3A, 0x20]"

definition msg_service_error :: utext where
  "msg_service_error = [0x30B5, 0x30FC, 0x30D3, 0x30B9, 0x30A8, 0x30E9, 0x30FC, 0x304C, 0x767A,
     0x751F, 0x3057, 0x307E, 0x3057, 0x305F, 0x3A, 0x20]"

definition msg_unexpected_error :: utext where
  "msg_unexpected_error = [0x4E88, 0x671F, 0x3057, 0x306A, 0x3044, 0x30A8, 0x30E9, 0x30FC,
     0x304C, 0x767A, 0x751F, 0x3057, 0x307E, 0x3057, 0x305F, 0x3A, 0x20]"

text \<open>
  The four subclasses of \<open>CognitoError\<close> are the four categories; an error carries the
  fields that \<open>CognitoError.__init__\<close> stores.
\<close>

datatype category = Validation | Authentication | Authorization | Service

datatype client_error = ClientError (err_code: string) (err_message: utext)

datatype cause = ClientCause client_error | ExceptionCause utext

record cognito_error =
  category :: category
  message :: utext
  error_code :: "string option"
  original_error :: "cause option"

definition raise_error :: "category \<Rightarrow> utext \<Rightarrow> cognito_error" where
  "raise_error c m = \<lparr>category = c, message = m, error_code = None, original_error = None\<rparr>"

section \<open>Python strings and values\<close>

text \<open>
  \<open>str.isspace\<close>, which \<open>str.strip\<close>, \<open>str.split\<close> and the pattern \<open>\s\<close> all use:
  below 256 the whitespace characters are 9 to 13, 28 to 32, 133 and 160.
\<close>

definition str_isspace :: "char \<Rightarrow> bool" where
  "str_isspace c =
     (let n = (of_char c :: nat) in (9 \<le> n \<and> n \<le> 13) \<or> (28 \<le> n \<and> n \<le> 32) \<or> n = 133 \<or> n = 160)"

text \<open>
  \<open>str.lower\<close>: below 256 the upper-case letters are A to Z and 192 to 222 without the
  multiplication sign 215; each is 32 below its lower-case letter.
\<close>

definition lower_char :: "char \<Rightarrow> char" where
  "lower_char c =
     (let n = (of_char c :: nat) in
      if (65 \<le> n \<and> n \<le> 90) \<or> (192 \<le> n \<and> n \<le> 222 \<and> n \<noteq> 215) then char_of (n + 32) else c)"

definition str_lower :: "string \<Rightarrow> string" where
  "str_lower s = map lower_char s"

definition str_strip :: "string \<Rightarrow> string" where
  "str_strip s = rev (dropWhile str_isspace (rev (dropWhile str_isspace s)))"

text \<open>
  \<open>str.split()\<close> without arguments: the maximal runs of characters that are not
  whitespace, in order. \<open>cur\<close> is the run being read.
\<close>

fun split_from :: "string \<Rightarrow> string \<Rightarrow> string list" where
  "split_from cur [] = (if cur = [] then [] else [cur])"
| "split_from cur (c # cs) =
     (if str_isspace c then (if cur = [] then split_from [] cs else cur # split_from [] cs)
      else split_from (cur @ [c]) cs)"

definition str_split :: "string \<Rightarrow> string list" where
  "str_split s = split_from [] s"

text \<open>
  Decoded JSON: the claims of a token and the provider's responses. Numbers are the
  integers (the timestamps of the claims). A Python dict is an association list with
  distinct keys, read by \<open>map_of\<close>; \<open>dict_get d k\<close> is \<open>d.get(k)\<close>, with \<open>None\<close>
  (here \<open>JNull\<close>) for a missing key. \<open>truthy\<close> is the truth value that \<open>if\<close> and
  \<open>not\<close> give a value.
\<close>

datatype json = JNull | JBool bool | JNum int | JStr string | JArr "json list"
  | JObj "(string \<times> json) list"

type_synonym pydict = "(string \<times> json) list"

fun truthy :: "json \<Rightarrow> bool" where
  "truthy JNull = False"
| "truthy (JBool b) = b"
| "truthy (JNum n) = (n \<noteq> 0)"
| "truthy (JStr s) = (s \<noteq> [])"
| "truthy (JArr xs) = (xs \<noteq> [])"
| "truthy (JObj kvs) = (kvs \<noteq> [])"

definition dict_get :: "pydict \<Rightarrow> string \<Rightarrow> json" where
  "dict_get d k = (case map_of d k of None \<Rightarrow> JNull | Some v \<Rightarrow> v)"

fun type_name :: "json \<Rightarrow> string" where
  "type_name JNull = ''NoneType''"
| "type_name (JBool b) = ''bool''"
| "type_name (JNum n) = ''int''"
| "type_name (JStr s) = ''str''"
| "type_name (JArr xs) = ''list''"
| "type_name (JObj kvs) = ''dict''"

text \<open>The text of the AttributeError that reading attribute \<open>a\<close> of a value without it raises.\<close>

definition attribute_error :: "json \<Rightarrow> string \<Rightarrow> utext" where
  "attribute_error v a =
     ascii ([CHR 0x27] @ type_name v @ [CHR 0x27] @ '' object has no attribute '' @
            [CHR 0x27] @ a @ [CHR 0x27])"

section \<open>External collaborators\<close>

text \<open>
  The exceptions that the libraries under \<open>utils/auth.py\<close> raise, each with its text
  (\<open>str(e)\<close>). \<open>InvalidTokenError\<close> stands for itself and for its subclasses other than
  the three listed beside it; \<open>OtherException\<close> for any other subclass of \<open>Exception\<close>.
  A library never raises one of this repository's errors.
\<close>

datatype py_exception =
    ExpiredSignatureError utext
  | DecodeError utext
  | InvalidSignatureError utext
  | InvalidTokenError utext
  | RequestException utext
  | AttributeError utext
  | OtherException utext

fun exception_text :: "py_exception \<Rightarrow> utext" where
  "exception_text (ExpiredSignatureError m) = m"
| "exception_text (DecodeError m) = m"
| "exception_text (InvalidSignatureError m) = m"
| "exception_text (InvalidTokenError m) = m"
| "exception_text (RequestException m) = m"
| "exception_text (AttributeError m) = m"
| "exception_text (OtherException m) = m"

text \<open>What is in flight inside a \<open>try\<close> block: a library's exception or an error of this repository.\<close>

datatype raised = Foreign py_exception | Own cognito_error

type_synonym jwk = "(string \<times> string) list"
type_synonym jwks = "(string \<times> jwk list) list"

text \<open>
  Every call that leaves the process or enters a library is appended to a log, so that
  "no call was made" is a statement about the log.
\<close>

datatype call =
    GetUnverifiedHeader string
  | RequestsGet string
  | FromJwk jwk
  | JwtDecode string
  | InitiateAuth string string string

fun is_get :: "call \<Rightarrow> bool" where
  "is_get (RequestsGet url) = True"
| "is_get c = False"

definition gets_issued :: "call list \<Rightarrow> nat" where
  "gets_issued log = length (filter is_get log)"

text \<open>
  The answers of PyJWT and of the key-discovery endpoint. \<open>requests_get n url\<close> is the
  outcome of \<open>requests.get\<close>, \<open>raise_for_status\<close> and \<open>json\<close> together for the request
  issued after \<open>n\<close> earlier ones: the endpoint may answer differently each time. A key-set
  document is a JSON object whose members hold lists of keys; a key and a token header
  are objects with string members. \<open>'k\<close> is the type of converted public keys.
\<close>

record 'k jwt_env =
  get_unverified_header :: "string \<Rightarrow> py_exception + (string \<times> string) list"
  requests_get :: "nat \<Rightarrow> string \<Rightarrow> py_exception + jwks"
  from_jwk :: "jwk \<Rightarrow> py_exception + 'k"
  jwt_decode :: "string \<Rightarrow> 'k \<Rightarrow> py_exception + pydict"

text \<open>The outcome of the provider's \<open>initiate_auth\<close> for a client id, user name and password.\<close>

datatype provider_exception = BotoClientError client_error | BotoOther utext

type_synonym provider = "string \<Rightarrow> string \<Rightarrow> string \<Rightarrow> provider_exception + pydict"

section \<open>The token validator\<close>

record token_validator =
  user_pool_id :: string
  region :: string
  jwks_url :: string
  jwks_cache :: "jwks option"

definition TokenValidator :: "string \<Rightarrow> string \<Rightarrow> token_validator" where
  "TokenValidator pool reg =
     \<lparr>user_pool_id = pool, region = reg,
      jwks_url = ''https://cognito-idp.'' @ reg @ ''.amazonaws.com/'' @ pool @
                 ''/.well-known/jwks.json'',
      jwks_cache = None\<rparr>"

text \<open>
  The first half of \<open>_get_public_key\<close>: \<open>if not self._jwks_cache\<close> is true for \<open>None\<close> and
  for an empty dict; then the document is fetched and stored. The result is the document
  that the second half reads.
\<close>

definition fetch_jwks ::
  "'k jwt_env \<Rightarrow> token_validator \<Rightarrow> call list \<Rightarrow> (raised + jwks) \<times> token_validator \<times> call list" where
  "fetch_jwks E self log =
     (let log1 = log @ [RequestsGet (jwks_url self)] in
      case requests_get E (gets_issued log) (jwks_url self) of
        Inr doc \<Rightarrow> (Inr doc, self\<lparr>jwks_cache := Some doc\<rparr>, log1)
      | Inl (RequestException m) \<Rightarrow>
          (Inl (Own (raise_error Service (msg_jwks_failed @ m))), self, log1)
      | Inl e \<Rightarrow> (Inl (Foreign e), self, log1))"

definition load_jwks ::
  "'k jwt_env \<Rightarrow> token_validator \<Rightarrow> call list \<Rightarrow> (raised + jwks) \<times> token_validator \<times> call list" where
  "load_jwks E self log =
     (case jwks_cache self of
        None \<Rightarrow> fetch_jwks E self log
      | Some doc \<Rightarrow> if doc = [] then fetch_jwks E self log else (Inr doc, self, log))"

definition get_public_key ::
  "'k jwt_env \<Rightarrow> token_validator \<Rightarrow> call list \<Rightarrow> string \<Rightarrow> (raised + 'k) \<times> token_validator \<times> call list" where
  "get_public_key E self log kid =
     (case load_jwks E self log of
        (Inl e, self1, log1) \<Rightarrow> (Inl e, self1, log1)
      | (Inr doc, self1, log1) \<Rightarrow>
          (case find (\<lambda>key. map_of key ''kid'' = Some kid)
                     (case map_of doc ''keys'' of None \<Rightarrow> [] | Some ks \<Rightarrow> ks) of
             Some key \<Rightarrow>
               (case from_jwk E key of
                  Inl e \<Rightarrow> (Inl (Foreign e), self1, log1 @ [FromJwk key])
                | Inr public_key \<Rightarrow> (Inr public_key, self1, log1 @ [FromJwk key]))
           | None \<Rightarrow> (Inl (Own (raise_error Authorization msg_token_invalid)), self1, log1)))"

text \<open>The body of the \<open>try\<close> block of \<open>validate_token\<close>, for a token that is not empty.\<close>

definition validate_token_body ::
  "'k jwt_env \<Rightarrow> token_validator \<Rightarrow> call list \<Rightarrow> string \<Rightarrow> (raised + pydict) \<times> token_validator \<times> call list" where
  "validate_token_body E self log token =
     (let log1 = log @ [GetUnverifiedHeader token] in
      case get_unverified_header E token of
        Inl e \<Rightarrow> (Inl (Foreign e), self, log1)
      | Inr unverified_header \<Rightarrow>
          (case map_of unverified_header ''kid'' of
             None \<Rightarrow> (Inl (Own (raise_error Authorization msg_token_invalid)), self, log1)
           | Some kid \<Rightarrow>
               if kid = [] then (Inl (Own (raise_error Authorization msg_token_invalid)), self, log1)
               else
                 (case get_public_key E self log1 kid of
                    (Inl e, self2, log2) \<Rightarrow> (Inl e, self2, log2)
                  | (Inr public_key, self2, log2) \<Rightarrow>
                      (case jwt_decode E token public_key of
                         Inl e \<Rightarrow> (Inl (Foreign e), self2, log2 @ [JwtDecode token])
                       | Inr payload \<Rightarrow>
                           if dict_get payload ''token_use'' \<noteq> JStr ''access''
                           then (Inl (Own (raise_error Authorization msg_token_invalid)),
                                 self2, log2 @ [JwtDecode token])
                           else (Inr payload, self2, log2 @ [JwtDecode token])))))"

text \<open>
  The \<open>except\<close> clauses of \<open>validate_token\<close>, in their order. The error that the last
  clause logs is not modelled.
\<close>

fun handle_exception :: "raised \<Rightarrow> cognito_error" where
  "handle_exception (Foreign (ExpiredSignatureError m)) = raise_error Authorization msg_token_expired"
| "handle_exception (Foreign (DecodeError m)) = raise_error Authorization msg_token_invalid"
| "handle_exception (Foreign (InvalidTokenError m)) = raise_error Authorization msg_token_invalid"
| "handle_exception (Foreign (InvalidSignatureError m)) = raise_error Authorization msg_token_invalid"
| "handle_exception (Own e) =
     (if category e = Authorization \<or> category e = Validation \<or> category e = Service then e
      else raise_error Service (msg_token_check_failed @ message e))"
| "handle_exception (Foreign (RequestException m)) = raise_error Service (msg_token_check_failed @ m)"
| "handle_exception (Foreign (AttributeError m)) = raise_error Service (msg_token_check_failed @ m)"
| "handle_exception (Foreign (OtherException m)) = raise_error Service (msg_token_check_failed @ m)"

definition validate_token ::
  "'k jwt_env \<Rightarrow> token_validator \<Rightarrow> call list \<Rightarrow> string option
     \<Rightarrow> (cognito_error + pydict) \<times> token_validator \<times> call list" where
  "validate_token E self log token =
     (case token of
        None \<Rightarrow> (Inl (raise_error Validation (ascii ''Token is required'')), self, log)
      | Some tok \<Rightarrow>
          if tok = [] then (Inl (raise_error Validation (ascii ''Token is required'')), self, log)
          else
            (case validate_token_body E self log tok of
               (Inl e, self1, log1) \<Rightarrow> (Inl (handle_exception e), self1, log1)
             | (Inr payload, self1, log1) \<Rightarrow> (Inr payload, self1, log1)))"

section \<open>Header and event extraction\<close>

text \<open>
  The pattern \<open>^Bearer\s+(.+)$\<close> with \<open>re.IGNORECASE\<close>, matched from the start of the
  string as the backtracking matcher does it. \<open>$\<close> matches at the end and before a final
  newline; \<open>.\<close> matches any character but the newline; both \<open>+\<close> are greedy, so the
  longest run is tried first and shorter ones after it. Below 256 a character matches a
  letter of \<open>Bearer\<close> exactly when its lower case is that letter's.
\<close>

definition at_end :: "string \<Rightarrow> bool" where
  "at_end r = (r = [] \<or> r = [CHR 0x0A])"

fun first_some :: "('a \<Rightarrow> 'b option) \<Rightarrow> 'a list \<Rightarrow> 'b option" where
  "first_some f [] = None"
| "first_some f (x # xs) = (case f x of Some y \<Rightarrow> Some y | None \<Rightarrow> first_some f xs)"

text \<open>\<open>(.+)$\<close> at the start of \<open>r\<close>: the group, if the rest of the pattern matches.\<close>

definition match_group :: "string \<Rightarrow> string option" where
  "match_group r =
     first_some (\<lambda>j. if at_end (drop j r) then Some (take j r) else None)
       (rev [1 ..< Suc (length (takeWhile (\<lambda>c. c \<noteq> CHR 0x0A) r))])"

text \<open>\<open>\s+(.+)$\<close> at the start of \<open>r\<close>.\<close>

definition match_spaces :: "string \<Rightarrow> string option" where
  "match_spaces r =
     first_some (\<lambda>k. match_group (drop k r))
       (rev [1 ..< Suc (length (takeWhile str_isspace r))])"

definition bearer_match :: "string \<Rightarrow> string option" where
  "bearer_match s =
     (if str_lower (take 6 s) = ''bearer'' then match_spaces (drop 6 s) else None)"

definition extract_token_from_header :: "string option \<Rightarrow> cognito_error + string" where
  "extract_token_from_header authorization_header =
     (case authorization_header of
        None \<Rightarrow> Inl (raise_error Validation msg_auth_required)
      | Some h \<Rightarrow>
          if h = [] then Inl (raise_error Validation msg_auth_required)
          else
            (case bearer_match (str_strip h) of
               None \<Rightarrow> Inl (raise_error Authorization msg_header_invalid)
             | Some token \<Rightarrow>
                 if token = [] then Inl (raise_error Authorization msg_header_invalid)
                 else Inr token))"

text \<open>
  A Lambda event is a dict of decoded JSON. \<open>event.get('headers', {})\<close> is the \<open>headers\<close>
  entry, or an empty dict when the event has none; a \<open>headers\<close> entry that is not a dict
  (a null one among them) has no \<open>items\<close>. The loop stops at the first key that is
  \<open>authorization\<close> in lower case. A value that is truthy reaches
  \<open>extract_token_from_header\<close>, where a value that is not a string has no \<open>strip\<close>.
\<close>

definition extract_token_from_event :: "pydict \<Rightarrow> raised + string" where
  "extract_token_from_event event =
     (case (case map_of event ''headers'' of None \<Rightarrow> JObj [] | Some v \<Rightarrow> v) of
        JObj headers \<Rightarrow>
          (case map_option snd (find (\<lambda>(key, value). str_lower key = ''authorization'') headers) of
             None \<Rightarrow> Inl (Own (raise_error Validation msg_auth_required))
           | Some auth_header \<Rightarrow>
               if \<not> truthy auth_header then Inl (Own (raise_error Validation msg_auth_required))
               else
                 (case auth_header of
                    JStr h \<Rightarrow>
                      (case extract_token_from_header (Some h) of
                         Inl e \<Rightarrow> Inl (Own e)
                       | Inr token \<Rightarrow> Inr token)
                  | v \<Rightarrow> Inl (Foreign (AttributeError (attribute_error v ''strip'')))))
      | v \<Rightarrow> Inl (Foreign (AttributeError (attribute_error v ''items''))))"

section \<open>The user-info projection\<close>

text \<open>
  The \<open>scope\<close> entry of the result: \<open>payload.get('scope', '').split() if payload.get('scope') else []\<close>.
  A truthy claim that is not a string has no \<open>split\<close>.
\<close>

definition scope_of :: "pydict \<Rightarrow> py_exception + json" where
  "scope_of payload =
     (if truthy (dict_get payload ''scope'') then
        (case (case map_of payload ''scope'' of None \<Rightarrow> JStr [] | Some v \<Rightarrow> v) of
           JStr s \<Rightarrow> Inr (JArr (map JStr (str_split s)))
         | v \<Rightarrow> Inl (AttributeError (attribute_error v ''split'')))
      else Inr (JArr []))"

definition validate_and_extract_user_info ::
  "'k jwt_env \<Rightarrow> call list \<Rightarrow> string option \<Rightarrow> string option \<Rightarrow> string
     \<Rightarrow> (raised + pydict) \<times> call list" where
  "validate_and_extract_user_info E log token pool reg =
     (case token of
        None \<Rightarrow> (Inl (Own (raise_error Validation msg_auth_required)), log)
      | Some tok \<Rightarrow>
          if tok = [] then (Inl (Own (raise_error Validation msg_auth_required)), log)
          else
            (case pool of
               None \<Rightarrow> (Inl (Own (raise_error Validation (ascii ''User pool ID is required''))), log)
             | Some p \<Rightarrow>
                 if p = []
                 then (Inl (Own (raise_error Validation (ascii ''User pool ID is required''))), log)
                 else
                   (case validate_token E (TokenValidator p reg) log token of
                      (Inl e, validator, log1) \<Rightarrow> (Inl (Own e), log1)
                    | (Inr payload, validator, log1) \<Rightarrow>
                        (case scope_of payload of
                           Inl e \<Rightarrow> (Inl (Foreign e), log1)
                         | Inr scope \<Rightarrow>
                             (Inr [(''user_id'', dict_get payload ''sub''),
                                   (''username'', dict_get payload ''username''),
                                   (''client_id'', dict_get payload ''client_id''),
                                   (''token_use'', dict_get payload ''token_use''),
                                   (''scope'', scope),
                                   (''auth_time'', dict_get payload ''auth_time''),
                                   (''iat'', dict_get payload ''iat''),
                                   (''exp'', dict_get payload ''exp'')], log1)))))"

section \<open>The directory client's error classification\<close>

text \<open>
  \<open>CognitoClient._handle_client_error\<close> always raises; the model returns the error it
  raises. The warning it logs first is not modelled.
\<close>

definition handle_client_error :: "client_error \<Rightarrow> utext \<Rightarrow> cognito_error" where
  "handle_client_error error context =
     (let error_code = err_code error; error_message = err_message error in
      if error_code \<in> set [''NotAuthorizedException'', ''UserNotFoundException'',
                            ''UserNotConfirmedException'', ''PasswordResetRequiredException'']
      then \<lparr>category = Authentication, message = msg_authentication_failed,
            error_code = Some error_code, original_error = Some (ClientCause error)\<rparr>
      else if error_code \<in> set [''AccessDeniedException'', ''UnauthorizedOperation'']
      then \<lparr>category = Authorization, message = msg_access_denied,
            error_code = Some error_code, original_error = Some (ClientCause error)\<rparr>
      else if error_code \<in> set [''InvalidParameterException'', ''InvalidPasswordException'',
                                 ''UsernameExistsException'', ''AliasExistsException'']
      then \<lparr>category = Validation, message = msg_bad_request @ error_message,
            error_code = Some error_code, original_error = Some (ClientCause error)\<rparr>
      else if error_code \<in> set [''InternalErrorException'', ''TooManyRequestsException'',
                                 ''ResourceNotFoundException'']
      then \<lparr>category = Service, message = msg_service_error @ error_message,
            error_code = Some error_code, original_error = Some (ClientCause error)\<rparr>
      else \<lparr>category = Service, message = msg_unexpected_error @ error_message,
            error_code = Some error_code, original_error = Some (ClientCause error)\<rparr>)"

definition known_codes :: "string list" where
  "known_codes = [''NotAuthorizedException'', ''UserNotFoundException'',
     ''UserNotConfirmedException'', ''PasswordResetRequiredException'',
     ''AccessDeniedException'', ''UnauthorizedOperation'',
     ''InvalidParameterException'', ''InvalidPasswordException'',
     ''UsernameExistsException'', ''AliasExistsException'',
     ''InternalErrorException'', ''TooManyRequestsException'', ''ResourceNotFoundException'']"

section \<open>The directory client: authenticate\<close>

datatype cognito_client =
  CognitoClient (client_user_pool_id: string) (client_id: string) (client_region: string)

definition normalize_auth_response :: "pydict \<Rightarrow> py_exception + pydict" where
  "normalize_auth_response response =
     (case (case map_of response ''AuthenticationResult'' of None \<Rightarrow> JObj [] | Some v \<Rightarrow> v) of
        JObj auth_result \<Rightarrow>
          Inr [(''access_token'', dict_get auth_result ''AccessToken''),
               (''refresh_token'', dict_get auth_result ''RefreshToken''),
               (''id_token'', dict_get auth_result ''IdToken''),
               (''token_type'',
                  (case map_of auth_result ''TokenType'' of None \<Rightarrow> JStr ''Bearer'' | Some v \<Rightarrow> v)),
               (''expires_in'',
                  (case map_of auth_result ''ExpiresIn'' of None \<Rightarrow> JNum 3600 | Some v \<Rightarrow> v))]
      | v \<Rightarrow> Inl (AttributeError (attribute_error v ''get'')))"

definition authenticate ::
  "provider \<Rightarrow> cognito_client \<Rightarrow> call list \<Rightarrow> string option \<Rightarrow> string option
     \<Rightarrow> (cognito_error + pydict) \<times> call list" where
  "authenticate initiate_auth self log email password =
     (case (email, password) of
        (Some em, Some pw) \<Rightarrow>
          if em = [] \<or> pw = []
          then (Inl (raise_error Validation (ascii ''Email and password are required'')), log)
          else
            (let log1 = log @ [InitiateAuth (client_id self) em pw] in
             case initiate_auth (client_id self) em pw of
               Inl (BotoClientError e) \<Rightarrow>
                 (Inl (handle_client_error e (ascii ''Authentication failed'')), log1)
             | Inl (BotoOther m) \<Rightarrow>
                 (Inl \<lparr>category = Service,
                       message = ascii ''Unexpected error during authentication: '' @ m,
                       error_code = None, original_error = Some (ExceptionCause m)\<rparr>, log1)
             | Inr response \<Rightarrow>
                 (case normalize_auth_response response of
                    Inr result \<Rightarrow> (Inr result, log1)
                  | Inl e \<Rightarrow>
                      (Inl \<lparr>category = Service,
                            message = ascii ''Unexpected error during authentication: '' @ exception_text e,
                            error_code = None, original_error = Some (ExceptionCause (exception_text e))\<rparr>,
                       log1)))
      | _ \<Rightarrow> (Inl (raise_error Validation (ascii ''Email and password are required'')), log))"

section \<open>Sample collaborators\<close>

text \<open>
  Concrete collaborators on which the properties below are evaluated: a key set in the
  shape of the one in \<open>tests/test_auth.py\<close>, libraries that accept every token under the
  key \<open>test_kid\<close> (a converted key is the key entry itself) and decode it to a given
  outcome, an endpoint that answers an empty object first and the key set afterwards,
  and a provider that accepts every password.
\<close>

definition sample_jwks :: jwks where
  "sample_jwks =
     [(''keys'', [[(''kid'', ''other_kid''), (''kty'', ''RSA''), (''n'', ''other_n''), (''e'', ''AQAB'')],
                  [(''kid'', ''test_kid''), (''kty'', ''RSA''), (''n'', ''test_n''), (''e'', ''AQAB'')]])]"

definition sample_env :: "string \<Rightarrow> (py_exception + pydict) \<Rightarrow> jwk jwt_env" where
  "sample_env kid outcome =
     \<lparr>get_unverified_header = (\<lambda>token. Inr [(''alg'', ''RS256''), (''kid'', kid)]),
      requests_get = (\<lambda>n url. Inr sample_jwks),
      from_jwk = (\<lambda>key. Inr key),
      jwt_decode = (\<lambda>token key. outcome)\<rparr>"

definition empty_first_env :: "jwk jwt_env" where
  "empty_first_env =
     \<lparr>get_unverified_header = (\<lambda>token. Inr [(''alg'', ''RS256''), (''kid'', ''test_kid'')]),
      requests_get = (\<lambda>n url. if n = 0 then Inr [] else Inr sample_jwks),
      from_jwk = (\<lambda>key. Inr key),
      jwt_decode = (\<lambda>token key. Inr [(''token_use'', JStr ''access'')])\<rparr>"

definition sample_provider :: provider where
  "sample_provider cid user pw = Inr [(''AuthenticationResult'', JObj [(''AccessToken'', JStr ''a'')])]"

section \<open>Properties\<close>

subsection \<open>The pattern matcher, strings and lists\<close>


lemma first_some_SomeD:
  "first_some f xs = Some y \<Longrightarrow> \<exists>x. x \<in> set xs \<and> f x = Some y"
  by (induction xs) (auto split: option.splits)

lemma rev_upt_Suc:
  "0 < n \<Longrightarrow> rev [1 ..< Suc n] = n # rev [1 ..< n]"
  by simp

lemma match_group_SomeD:
  assumes "match_group r = Some t"
  shows "\<exists>j. 1 \<le> j \<and> j \<le> length (takeWhile (\<lambda>c. c \<noteq> CHR 0x0A) r) \<and> t = take j r \<and> at_end (drop j r)"
proof -
  from first_some_SomeD [OF assms [unfolded match_group_def]]
  obtain j where j: "j \<in> set (rev [1 ..< Suc (length (takeWhile (\<lambda>c. c \<noteq> CHR 0x0A) r))])"
    and f: "(if at_end (drop j r) then Some (take j r) else None) = Some t"
    by blast
  from f have "at_end (drop j r)" "t = take j r" by (auto split: if_splits)
  with j show ?thesis by auto
qed

lemma match_group_length:
  assumes "match_group r = Some t"
  shows "t \<noteq> [] \<and> length t \<le> length r"
proof -
  from match_group_SomeD [OF assms] obtain j where
    j: "1 \<le> j" "j \<le> length (takeWhile (\<lambda>c. c \<noteq> CHR 0x0A) r)" "t = take j r" by blast
  have "length (takeWhile (\<lambda>c. c \<noteq> CHR 0x0A) r) \<le> length r" by (rule length_takeWhile_le)
  with j show ?thesis by auto
qed

lemma match_spaces_SomeD:
  assumes "match_spaces r = Some t"
  shows "\<exists>k. 1 \<le> k \<and> k \<le> length (takeWhile str_isspace r) \<and> match_group (drop k r) = Some t"
proof -
  from first_some_SomeD [OF assms [unfolded match_spaces_def]]
  show ?thesis by auto
qed

lemma match_spaces_length:
  assumes "match_spaces r = Some t"
  shows "t \<noteq> [] \<and> length t < length r"
proof -
  from match_spaces_SomeD [OF assms] obtain k where
    k: "1 \<le> k" "k \<le> length (takeWhile str_isspace r)" "match_group (drop k r) = Some t" by blast
  have "length (takeWhile str_isspace r) \<le> length r" by (rule length_takeWhile_le)
  with k match_group_length [OF k(3)] show ?thesis by auto
qed

lemma bearer_match_length:
  assumes "bearer_match s = Some t"
  shows "t \<noteq> [] \<and> length t < length s"
proof -
  from assms have "match_spaces (drop 6 s) = Some t"
    by (auto simp: bearer_match_def split: if_splits)
  from match_spaces_length [OF this] show ?thesis by auto
qed

lemma length_str_strip: "length (str_strip s) \<le> length s"
proof -
  have "length (str_strip s) \<le> length (dropWhile str_isspace s)"
    unfolding str_strip_def using length_dropWhile_le [of str_isspace "rev (dropWhile str_isspace s)"] by simp
  also have "\<dots> \<le> length s" by (rule length_dropWhile_le)
  finally show ?thesis .
qed

lemma extract_token_from_header_shorter:
  assumes "extract_token_from_header (Some h) = Inr t"
  shows "t \<noteq> [] \<and> length t < length h"
proof -
  from assms have "bearer_match (str_strip h) = Some t"
    by (auto simp: extract_token_from_header_def split: if_splits option.splits)
  from bearer_match_length [OF this] length_str_strip [of h] show ?thesis by auto
qed

lemma match_group_whole:
  assumes "r \<noteq> []" "CHR 0x0A \<notin> set r"
  shows "match_group r = Some r"
proof -
  have tw: "takeWhile (\<lambda>c. c \<noteq> CHR 0x0A) r = r"
    using assms(2) by (auto simp: takeWhile_eq_all_conv)
  have n: "0 < length r" using assms(1) by simp
  show ?thesis
    unfolding match_group_def tw rev_upt_Suc [OF n]
    by (simp add: at_end_def)
qed

lemma match_spaces_whole:
  assumes "ws \<noteq> []" "\<forall>c\<in>set ws. str_isspace c" "x \<noteq> []" "\<not> str_isspace (hd x)" "CHR 0x0A \<notin> set x"
  shows "match_spaces (ws @ x) = Some x"
proof -
  have "takeWhile str_isspace x = []" using assms(3,4) by (cases x) auto
  then have tw: "takeWhile str_isspace (ws @ x) = ws"
    using assms(2) by (simp add: takeWhile_append2)
  have n: "0 < length ws" using assms(1) by simp
  show ?thesis
    unfolding match_spaces_def tw rev_upt_Suc [OF n]
    by (simp add: match_group_whole [OF assms(3,5)])
qed

lemma lower_char_b: "lower_char c = CHR ''b'' \<Longrightarrow> \<not> str_isspace c"
  unfolding lower_char_def str_isspace_def Let_def
  by (auto simp: char_of_eq_iff take_bit_eq_mod split: if_splits)


lemma dropWhile_hd_id: "xs \<noteq> [] \<Longrightarrow> \<not> P (hd xs) \<Longrightarrow> dropWhile P xs = xs"
  by (cases xs) auto

lemma str_strip_padded:
  assumes "\<forall>c\<in>set pre. str_isspace c" "\<forall>c\<in>set post. str_isspace c"
    and "body \<noteq> []" "\<not> str_isspace (hd body)" "\<not> str_isspace (last body)"
  shows "str_strip (pre @ body @ post) = body"
proof -
  have 1: "dropWhile str_isspace (pre @ body @ post) = body @ post"
    using assms(1,3,4) by (cases body) (auto simp: dropWhile_append2)
  have "dropWhile str_isspace (rev post @ rev body) = dropWhile str_isspace (rev body)"
    using assms(2) by (intro dropWhile_append2) auto
  also have "\<dots> = rev body"
    using assms(3,5) by (intro dropWhile_hd_id) (auto simp: hd_rev)
  finally show ?thesis by (simp add: str_strip_def 1)
qed

lemma str_lower_bearer:
  assumes "str_lower scheme = ''bearer''"
  shows "length scheme = 6 \<and> scheme \<noteq> [] \<and> \<not> str_isspace (hd scheme)"
proof -
  from assms have "length (map lower_char scheme) = 6" by (simp add: str_lower_def)
  then have l: "length scheme = 6" by simp
  then obtain c cs where sc: "scheme = c # cs" by (cases scheme) auto
  with assms have "lower_char c = CHR ''b''" by (simp add: str_lower_def)
  then have "\<not> str_isspace c" by (rule lower_char_b)
  with l sc show ?thesis by simp
qed

lemma bearer_match_shape:
  assumes "str_lower scheme = ''bearer''"
    and "ws \<noteq> []" "\<forall>c\<in>set ws. str_isspace c"
    and "x \<noteq> []" "\<not> str_isspace (hd x)" "CHR 0x0A \<notin> set x"
  shows "bearer_match (scheme @ ws @ x) = Some x"
proof -
  from str_lower_bearer [OF assms(1)] have l: "length scheme = 6" by simp
  then have "take 6 (scheme @ ws @ x) = scheme" "drop 6 (scheme @ ws @ x) = ws @ x" by simp_all
  then show ?thesis
    by (simp add: bearer_match_def assms(1) match_spaces_whole [OF assms(2-6)])
qed

lemma extract_token_from_header_shape:
  assumes "str_lower scheme = ''bearer''"
    and "ws \<noteq> []" "\<forall>c\<in>set ws. str_isspace c"
    and "\<forall>c\<in>set pre. str_isspace c" "\<forall>c\<in>set post. str_isspace c"
    and "x \<noteq> []" "\<not> str_isspace (hd x)" "\<not> str_isspace (last x)" "CHR 0x0A \<notin> set x"
  shows "extract_token_from_header (Some (pre @ scheme @ ws @ x @ post)) = Inr x"
proof -
  from str_lower_bearer [OF assms(1)]
  have s: "scheme \<noteq> []" "\<not> str_isspace (hd scheme)" by simp_all
  have b: "scheme @ ws @ x \<noteq> []" "\<not> str_isspace (hd (scheme @ ws @ x))"
    "\<not> str_isspace (last (scheme @ ws @ x))"
    using s assms(6,8) by simp_all
  from str_strip_padded [OF assms(4,5) b]
  have "str_strip (pre @ scheme @ ws @ x @ post) = scheme @ ws @ x" by simp
  moreover have "pre @ scheme @ ws @ x @ post \<noteq> []" using s by simp
  ultimately show ?thesis
    by (simp add: extract_token_from_header_def
        bearer_match_shape [OF assms(1,2,3,6,7,9)] assms(6))
qed

lemmas string_eval = str_strip_def str_isspace_def str_lower_def lower_char_def char_of_eq_iff
  bearer_match_def match_spaces_def match_group_def at_end_def

lemma extract_examples:
  "extract_token_from_header (Some ''Bearer X'') = Inr ''X''"
  "extract_token_from_header (Some ''bearer X'') = Inr ''X''"
  "extract_token_from_header (Some ''  Bearer   X  '') = Inr ''X''"
  "extract_token_from_header (Some ''Basic X'') = Inl (raise_error Authorization msg_header_invalid)"
  "extract_token_from_header (Some ''Bearer '') = Inl (raise_error Authorization msg_header_invalid)"
  "extract_token_from_header (Some ''X'') = Inl (raise_error Authorization msg_header_invalid)"
  "extract_token_from_header None = Inl (raise_error Validation msg_auth_required)"
  "extract_token_from_header (Some []) = Inl (raise_error Validation msg_auth_required)"
  by (simp_all add: extract_token_from_header_def string_eval)

lemma find_skip:
  assumes "list_all (\<lambda>x. \<not> P x) pre" "P x"
  shows "find P (pre @ x # post) = Some x"
  using assms by (induction pre) auto

lemma find_none: "list_all (\<lambda>x. \<not> P x) xs \<Longrightarrow> find P xs = None"
  by (induction xs) auto

lemma split_from_concat:
  "concat (split_from cur s) = cur @ filter (\<lambda>c. \<not> str_isspace c) s"
  by (induction s arbitrary: cur) auto

lemma split_from_words:
  "list_all (\<lambda>c. \<not> str_isspace c) cur \<Longrightarrow>
   list_all (\<lambda>w. w \<noteq> [] \<and> list_all (\<lambda>c. \<not> str_isspace c) w) (split_from cur s)"
  by (induction s arbitrary: cur) auto

lemma str_strip_ends:
  assumes "str_strip h \<noteq> []"
  shows "\<not> str_isspace (hd (str_strip h)) \<and> \<not> str_isspace (last (str_strip h))"
proof -
  let ?d = "dropWhile str_isspace h"
  let ?e = "dropWhile str_isspace (rev ?d)"
  have s: "str_strip h = rev ?e" by (simp add: str_strip_def)
  with assms have e: "?e \<noteq> []" by simp
  then have "\<not> str_isspace (hd ?e)" by (rule hd_dropWhile)
  then have l: "\<not> str_isspace (last (str_strip h))" using e by (simp add: s last_rev)
  have "?d = rev (takeWhile str_isspace (rev ?d) @ ?e)"
    by (simp only: takeWhile_dropWhile_id rev_rev_ident)
  also have "\<dots> = rev ?e @ rev (takeWhile str_isspace (rev ?d))" by (rule rev_append)
  finally have d: "?d = str_strip h @ rev (takeWhile str_isspace (rev ?d))"
    unfolding s .
  with assms have "?d \<noteq> []" by (metis append_is_Nil_conv)
  then have "\<not> str_isspace (hd ?d)" by (rule hd_dropWhile)
  moreover have "hd ?d = hd (str_strip h)" using assms by (subst d) simp
  ultimately show ?thesis using l by simp
qed

lemma match_spaces_stripped:
  assumes ms: "match_spaces rest = Some t"
    and lst: "rest \<noteq> [] \<Longrightarrow> \<not> str_isspace (last rest)"
  shows "t \<noteq> [] \<and> CHR 0x0A \<notin> set t \<and> \<not> str_isspace (hd t) \<and> \<not> str_isspace (last t) \<and>
         t = dropWhile str_isspace rest \<and> takeWhile str_isspace rest \<noteq> []"
proof -
  let ?m = "length (takeWhile str_isspace rest)"
  let ?Q = "\<lambda>c. c \<noteq> CHR 0x0A"
  from match_spaces_SomeD [OF ms] obtain k where
    k: "1 \<le> k" "k \<le> ?m" and mg: "match_group (drop k rest) = Some t" by blast
  let ?r = "drop k rest"
  from match_group_SomeD [OF mg] obtain j where
    j: "1 \<le> j" "j \<le> length (takeWhile ?Q ?r)" "t = take j ?r" "at_end (drop j ?r)" by blast
  have m_le: "?m \<le> length rest" by (rule length_takeWhile_le)
  with k have rest: "rest \<noteq> []" by auto
  have jr: "j \<le> length ?r" using j(2) length_takeWhile_le [of ?Q ?r] by simp
  with j(1,3) have t_ne: "t \<noteq> []" by auto
  have "take j ?r = take j (takeWhile ?Q ?r @ dropWhile ?Q ?r)" by simp
  also have "\<dots> = take j (takeWhile ?Q ?r)" using j(2) by (simp del: takeWhile_dropWhile_id)
  finally have "set t \<subseteq> set (takeWhile ?Q ?r)" using j(3) by (simp add: set_take_subset)
  then have nl: "CHR 0x0A \<notin> set t" by (auto dest: set_takeWhileD)
  have sp: "str_isspace (CHR 0x0A)" by (simp add: str_isspace_def)
  have r_ne: "?r \<noteq> []" using jr j(1) by auto
  then have kl: "k < length rest" by simp
  have last_r: "last ?r = last rest" using kl by (simp add: last_drop)
  have "drop j ?r = []"
  proof (rule ccontr)
    assume "drop j ?r \<noteq> []"
    with j(4) have d: "drop j ?r = [CHR 0x0A]" by (simp add: at_end_def)
    have "?r = take j ?r @ drop j ?r" by (rule append_take_drop_id [symmetric])
    then have "last ?r = CHR 0x0A" unfolding d by (metis last_snoc)
    with last_r sp lst [OF rest] show False by simp
  qed
  then have t_r: "t = ?r" using j(3) by simp
  with last_r lst [OF rest] have last_t: "\<not> str_isspace (last t)" by simp
  let ?D = "dropWhile str_isspace rest"
  have D: "?D = drop ?m rest" by (rule dropWhile_eq_drop)
  have D_ne: "?D \<noteq> []"
  proof
    assume "?D = []"
    then have "\<forall>x\<in>set rest. str_isspace x" by (simp add: dropWhile_eq_Nil_conv)
    with rest have "str_isspace (last rest)" by simp
    with lst [OF rest] show False by simp
  qed
  have "set ?D \<subseteq> set t" unfolding D t_r using k(2) by (rule set_drop_subset_set_drop)
  with nl have D_nl: "CHR 0x0A \<notin> set ?D" by auto
  have m_pos: "0 < ?m" using k by linarith
  have "match_spaces rest = Some ?D"
    unfolding match_spaces_def rev_upt_Suc [OF m_pos]
    using match_group_whole [OF D_ne D_nl] by (simp add: D)
  with ms have tD: "t = ?D" by simp
  have "\<not> str_isspace (hd ?D)" using D_ne by (rule hd_dropWhile)
  moreover have "takeWhile str_isspace rest \<noteq> []" using m_pos by simp
  ultimately show ?thesis using t_ne nl last_t tD by simp
qed

lemma extract_token_from_header_token:
  assumes "extract_token_from_header (Some h) = Inr t"
  shows "t \<noteq> [] \<and> CHR 0x0A \<notin> set t \<and> \<not> str_isspace (hd t) \<and> \<not> str_isspace (last t)"
proof -
  let ?s = "str_strip h"
  from assms have bm: "bearer_match ?s = Some t"
    by (auto simp: extract_token_from_header_def split: if_splits option.splits)
  then have ms: "match_spaces (drop 6 ?s) = Some t"
    by (auto simp: bearer_match_def split: if_splits)
  have "\<not> str_isspace (last (drop 6 ?s))" if ne: "drop 6 ?s \<noteq> []"
  proof -
    from ne have "?s \<noteq> []" by auto
    from str_strip_ends [OF this] have "\<not> str_isspace (last ?s)" by simp
    moreover have "last (drop 6 ?s) = last ?s" using ne by simp
    ultimately show ?thesis by simp
  qed
  from match_spaces_stripped [OF ms this] show ?thesis by blast
qed

lemma extract_token_from_header_rewrap:
  assumes "extract_token_from_header (Some h) = Inr t"
  shows "extract_token_from_header (Some (''Bearer '' @ t)) = Inr t"
proof -
  from extract_token_from_header_token [OF assms]
  have t: "t \<noteq> []" "CHR 0x0A \<notin> set t" "\<not> str_isspace (hd t)" "\<not> str_isspace (last t)"
    by simp_all
  have b: "str_lower ''Bearer'' = ''bearer''" "'' '' \<noteq> []" "\<forall>c\<in>set '' ''. str_isspace c"
    "\<forall>c\<in>set []. str_isspace c"
    by (simp_all add: string_eval)
  from extract_token_from_header_shape [OF b(1-3) b(4) b(4) t(1,3,4,2)]
  show ?thesis by simp
qed

lemma list_all_takeWhile: "list_all P (takeWhile P xs)"
  by (induction xs) auto

lemma str_strip_decomp:
  "\<exists>pre post. h = pre @ str_strip h @ post \<and> list_all str_isspace pre \<and> list_all str_isspace post"
proof -
  let ?d = "dropWhile str_isspace h"
  let ?e = "dropWhile str_isspace (rev ?d)"
  let ?post = "rev (takeWhile str_isspace (rev ?d))"
  have s: "str_strip h = rev ?e" by (simp add: str_strip_def)
  have "?d = rev (takeWhile str_isspace (rev ?d) @ ?e)"
    by (simp only: takeWhile_dropWhile_id rev_rev_ident)
  also have "\<dots> = rev ?e @ ?post" by (rule rev_append)
  finally have d: "?d = str_strip h @ ?post" unfolding s .
  have "h = takeWhile str_isspace h @ ?d" by simp
  with d have "h = takeWhile str_isspace h @ str_strip h @ ?post" by simp
  moreover have "list_all str_isspace (takeWhile str_isspace h)" by (rule list_all_takeWhile)
  moreover have "list_all str_isspace ?post"
    using list_all_takeWhile [of str_isspace "rev ?d"] by (simp add: list_all_iff)
  ultimately show ?thesis by blast
qed

lemma extract_token_from_header_only_if:
  assumes "extract_token_from_header (Some h) = Inr t"
  shows "\<exists>pre scheme ws post. h = pre @ scheme @ ws @ t @ post \<and>
     list_all str_isspace pre \<and> list_all str_isspace post \<and>
     str_lower scheme = ''bearer'' \<and> ws \<noteq> [] \<and> list_all str_isspace ws"
proof -
  let ?s = "str_strip h"
  let ?rest = "drop 6 ?s"
  from assms have bm: "bearer_match ?s = Some t"
    by (auto simp: extract_token_from_header_def split: if_splits option.splits)
  then have sch: "str_lower (take 6 ?s) = ''bearer''" and ms: "match_spaces ?rest = Some t"
    by (auto simp: bearer_match_def split: if_splits)
  have "\<not> str_isspace (last ?rest)" if ne: "?rest \<noteq> []"
  proof -
    from ne have "?s \<noteq> []" by auto
    from str_strip_ends [OF this] have "\<not> str_isspace (last ?s)" by simp
    moreover have "last ?rest = last ?s" using ne by simp
    ultimately show ?thesis by simp
  qed
  from match_spaces_stripped [OF ms this]
  have t: "t = dropWhile str_isspace ?rest" and ws: "takeWhile str_isspace ?rest \<noteq> []"
    by simp_all
  have "?s = take 6 ?s @ ?rest" by simp
  also have "?rest = takeWhile str_isspace ?rest @ t" unfolding t by simp
  finally have s: "?s = take 6 ?s @ takeWhile str_isspace ?rest @ t" .
  from str_strip_decomp [of h] obtain pre post where
    h: "h = pre @ ?s @ post" "list_all str_isspace pre" "list_all str_isspace post" by blast
  from h(1) s have "h = pre @ take 6 ?s @ takeWhile str_isspace ?rest @ t @ post"
    by (metis append.assoc)
  with h(2,3) sch ws list_all_takeWhile [of str_isspace ?rest] show ?thesis by blast
qed

lemma extract_token_from_header_wrong_scheme:
  assumes pre: "list_all str_isspace pre"
    and sch: "length scheme = 6" "\<not> str_isspace (hd scheme)" "str_lower scheme \<noteq> ''bearer''"
  shows "extract_token_from_header (Some (pre @ scheme @ rest)) =
     Inl (raise_error Authorization msg_header_invalid)"
proof -
  let ?h = "pre @ scheme @ rest"
  let ?s = "str_strip ?h"
  have ne: "scheme \<noteq> []" using sch(1) by auto
  have d: "dropWhile str_isspace ?h = scheme @ rest"
    using pre sch(2) ne by (cases scheme) (auto simp: dropWhile_append2 list_all_iff)
  from str_strip_decomp [of "scheme @ rest"] obtain p q where
    pq: "scheme @ rest = p @ str_strip (scheme @ rest) @ q" "list_all str_isspace p" by blast
  have "p = []"
  proof (rule ccontr)
    assume "p \<noteq> []"
    then have "hd (scheme @ rest) = hd p" by (subst pq(1)) simp
    moreover have "str_isspace (hd p)" using \<open>p \<noteq> []\<close> pq(2) by (cases p) auto
    ultimately show False using sch(2) ne by simp
  qed
  with pq(1) have pref: "scheme @ rest = str_strip (scheme @ rest) @ q" by simp
  have d2: "dropWhile str_isspace (scheme @ rest) = scheme @ rest"
    using ne sch(2) by (intro dropWhile_hd_id) simp_all
  have same: "?s = str_strip (scheme @ rest)" by (simp only: str_strip_def d d2)
  have "str_lower (take 6 ?s) \<noteq> ''bearer''"
  proof
    assume b: "str_lower (take 6 ?s) = ''bearer''"
    then have "length (map lower_char (take 6 ?s)) = 6" by (simp add: str_lower_def)
    then have l: "6 \<le> length ?s" by simp
    have "take 6 (scheme @ rest) = take 6 (?s @ q)" using pref same by simp
    also have "\<dots> = take 6 ?s" using l by simp
    finally have "take 6 ?s = scheme" using sch(1) by simp
    with b sch(3) show False by simp
  qed
  then show ?thesis using ne by (simp add: extract_token_from_header_def bearer_match_def)
qed

subsection \<open>Error classification and header extraction\<close>

text \<open>
  C4. The classification is a function of the provider code alone (any provider message
  \<open>m\<close>, any context \<open>ctx\<close>): each of the thirteen listed codes maps to its listed
  category, and every code outside the table maps to Service with the generic
  unexpected-error message, followed by the provider's message.
\<close>

theorem C4_error_classification:
  "category (handle_client_error (ClientError ''NotAuthorizedException'' m) ctx) = Authentication \<and>
   category (handle_client_error (ClientError ''UserNotFoundException'' m) ctx) = Authentication \<and>
   category (handle_client_error (ClientError ''UserNotConfirmedException'' m) ctx) = Authentication \<and>
   category (handle_client_error (ClientError ''PasswordResetRequiredException'' m) ctx) = Authentication \<and>
   category (handle_client_error (ClientError ''AccessDeniedException'' m) ctx) = Authorization \<and>
   category (handle_client_error (ClientError ''UnauthorizedOperation'' m) ctx) = Authorization \<and>
   category (handle_client_error (ClientError ''InvalidParameterException'' m) ctx) = Validation \<and>
   category (handle_client_error (ClientError ''InvalidPasswordException'' m) ctx) = Validation \<and>
   category (handle_client_error (ClientError ''UsernameExistsException'' m) ctx) = Validation \<and>
   category (handle_client_error (ClientError ''AliasExistsException'' m) ctx) = Validation \<and>
   category (handle_client_error (ClientError ''InternalErrorException'' m) ctx) = Service \<and>
   category (handle_client_error (ClientError ''TooManyRequestsException'' m) ctx) = Service \<and>
   category (handle_client_error (ClientError ''ResourceNotFoundException'' m) ctx) = Service \<and>
   (c \<notin> set known_codes \<longrightarrow>
     category (handle_client_error (ClientError c m) ctx) = Service \<and>
     message (handle_client_error (ClientError c m) ctx) = msg_unexpected_error @ m)"
  by (simp add: handle_client_error_def known_codes_def Let_def)

theorem C4_error_classification_witness:
  "''ThrottlingException'' \<notin> set known_codes \<and>
   category (handle_client_error (ClientError ''ThrottlingException'' (ascii ''Rate exceeded'')) [])
     = Service \<and>
   message (handle_client_error (ClientError ''ThrottlingException'' (ascii ''Rate exceeded'')) [])
     = msg_unexpected_error @ ascii ''Rate exceeded''"
proof -
  have h: "''ThrottlingException'' \<notin> set known_codes"
    by (simp add: known_codes_def)
  from C4_error_classification [of "ascii ''Rate exceeded''" "[]" "''ThrottlingException''"] h
  show ?thesis by blast
qed

text \<open>
  C6. The three sample headers yield \<open>X\<close>; \<open>Basic X\<close>, \<open>Digest X\<close>, \<open>Bearer \<close> and
  \<open>BearerX\<close> raise the Authorization error and a missing or empty header the Validation
  error. In general, extraction succeeds with \<open>x\<close> exactly on the headers of this shape:
  whitespace, a spelling of the scheme whose lower case is \<open>bearer\<close>, one or more
  whitespace characters, the token \<open>x\<close> (not empty, without a newline, not beginning
  or ending with whitespace), whitespace. A header that begins, after whitespace, with
  six characters that are not a spelling of \<open>bearer\<close> raises the Authorization error,
  and so does every other header that is not empty and fails.
\<close>

theorem C6_bearer_extraction:
  "extract_token_from_header (Some ''Bearer X'') = Inr ''X'' \<and>
   extract_token_from_header (Some ''bearer X'') = Inr ''X'' \<and>
   extract_token_from_header (Some ''  Bearer   X  '') = Inr ''X'' \<and>
   extract_token_from_header (Some ''Basic X'') = Inl (raise_error Authorization msg_header_invalid) \<and>
   extract_token_from_header (Some ''Bearer '') = Inl (raise_error Authorization msg_header_invalid) \<and>
   extract_token_from_header (Some ''Digest X'') = Inl (raise_error Authorization msg_header_invalid) \<and>
   extract_token_from_header (Some ''BearerX'') = Inl (raise_error Authorization msg_header_invalid) \<and>
   extract_token_from_header None = Inl (raise_error Validation msg_auth_required) \<and>
   extract_token_from_header (Some []) = Inl (raise_error Validation msg_auth_required) \<and>
   (str_lower scheme = ''bearer'' \<and> ws \<noteq> [] \<and> list_all str_isspace ws \<and>
    list_all str_isspace pre \<and> list_all str_isspace post \<and>
    x \<noteq> [] \<and> \<not> str_isspace (hd x) \<and> \<not> str_isspace (last x) \<and> CHR 0x0A \<notin> set x
    \<longrightarrow> extract_token_from_header (Some (pre @ scheme @ ws @ x @ post)) = Inr x) \<and>
   (extract_token_from_header (Some hdr) = Inr t
    \<longrightarrow> (\<exists>pre scheme ws post. hdr = pre @ scheme @ ws @ t @ post \<and>
           list_all str_isspace pre \<and> list_all str_isspace post \<and>
           str_lower scheme = ''bearer'' \<and> ws \<noteq> [] \<and> list_all str_isspace ws) \<and>
        t \<noteq> [] \<and> \<not> str_isspace (hd t) \<and> \<not> str_isspace (last t) \<and> CHR 0x0A \<notin> set t) \<and>
   (list_all str_isspace lead \<and> length other = 6 \<and> \<not> str_isspace (hd other) \<and>
    str_lower other \<noteq> ''bearer''
    \<longrightarrow> extract_token_from_header (Some (lead @ other @ rest)) =
          Inl (raise_error Authorization msg_header_invalid)) \<and>
   (h \<noteq> [] \<and> extract_token_from_header (Some h) = Inl e
    \<longrightarrow> e = raise_error Authorization msg_header_invalid)"
proof -
  have general: "extract_token_from_header (Some (pre @ scheme @ ws @ x @ post)) = Inr x"
    if "str_lower scheme = ''bearer''" "ws \<noteq> []" "list_all str_isspace ws"
      "list_all str_isspace pre" "list_all str_isspace post"
      "x \<noteq> []" "\<not> str_isspace (hd x)" "\<not> str_isspace (last x)" "CHR 0x0A \<notin> set x"
    using that by (intro extract_token_from_header_shape) (simp_all add: list_all_iff)
  have only_if: "(\<exists>pre scheme ws post. hdr = pre @ scheme @ ws @ t @ post \<and>
           list_all str_isspace pre \<and> list_all str_isspace post \<and>
           str_lower scheme = ''bearer'' \<and> ws \<noteq> [] \<and> list_all str_isspace ws) \<and>
        t \<noteq> [] \<and> \<not> str_isspace (hd t) \<and> \<not> str_isspace (last t) \<and> CHR 0x0A \<notin> set t"
    if "extract_token_from_header (Some hdr) = Inr t"
    using extract_token_from_header_only_if [OF that] extract_token_from_header_token [OF that]
    by blast
  have wrong: "extract_token_from_header (Some (lead @ other @ rest)) =
          Inl (raise_error Authorization msg_header_invalid)"
    if "list_all str_isspace lead" "length other = 6" "\<not> str_isspace (hd other)"
      "str_lower other \<noteq> ''bearer''"
    using that by (rule extract_token_from_header_wrong_scheme)
  have failure: "e = raise_error Authorization msg_header_invalid"
    if "h \<noteq> []" "extract_token_from_header (Some h) = Inl e"
    using that by (auto simp: extract_token_from_header_def split: option.splits if_splits)
  have more: "extract_token_from_header (Some ''Digest X'') = Inl (raise_error Authorization msg_header_invalid)"
    "extract_token_from_header (Some ''BearerX'') = Inl (raise_error Authorization msg_header_invalid)"
    by (simp_all add: extract_token_from_header_def string_eval)
  show ?thesis
    apply (intro conjI impI)
                        apply (rule extract_examples more)+
        apply (elim conjE, erule (8) general)
       apply (drule only_if, blast)
       apply (drule only_if, blast)
       apply (drule only_if, blast)
       apply (drule only_if, blast)
       apply (drule only_if, blast)
     apply (elim conjE, erule (3) wrong)
    apply (elim conjE, erule (1) failure)
    done
qed

text \<open>
  C6, at a mixed-case scheme padded with a tab and spaces, at a padded header that
  succeeds, at the scheme \<open>Digest\<close> after a space, and at a foreign scheme.
\<close>

theorem C6_bearer_extraction_witness:
  "str_lower ''BeArEr'' = ''bearer'' \<and> list_all str_isspace [CHR 0x09, CHR '' ''] \<and>
   \<not> str_isspace (hd ''abc.def'') \<and> \<not> str_isspace (last ''abc.def'') \<and>
   extract_token_from_header (Some ('' '' @ ''BeArEr'' @ [CHR 0x09, CHR '' ''] @ ''abc.def'' @ ''  ''))
     = Inr ''abc.def'' \<and>
   (\<exists>pre scheme ws post. '' bearer  X '' = pre @ scheme @ ws @ ''X'' @ post \<and>
      list_all str_isspace pre \<and> list_all str_isspace post \<and>
      str_lower scheme = ''bearer'' \<and> ws \<noteq> [] \<and> list_all str_isspace ws) \<and>
   str_lower ''Digest'' \<noteq> ''bearer'' \<and>
   extract_token_from_header (Some ('' '' @ ''Digest'' @ '' X'')) =
     Inl (raise_error Authorization msg_header_invalid) \<and>
   extract_token_from_header (Some ''Token abc'') = Inl (raise_error Authorization msg_header_invalid)"
proof -
  have h: "str_lower ''BeArEr'' = ''bearer''" "list_all str_isspace [CHR 0x09, CHR '' '']"
    "list_all str_isspace '' ''" "list_all str_isspace ''  ''"
    "\<not> str_isspace (hd ''abc.def'')" "\<not> str_isspace (last ''abc.def'')"
    "CHR 0x0A \<notin> set ''abc.def''"
    by (simp_all add: string_eval)
  have f: "extract_token_from_header (Some ''Token abc'') = Inl (raise_error Authorization msg_header_invalid)"
    by (simp add: extract_token_from_header_def string_eval)
  have g: "extract_token_from_header (Some '' bearer  X '') = Inr ''X''"
    by (simp add: extract_token_from_header_def string_eval)
  have d: "length ''Digest'' = 6" "\<not> str_isspace (hd ''Digest'')" "str_lower ''Digest'' \<noteq> ''bearer''"
    by (simp_all add: string_eval)
  note T = C6_bearer_extraction [where scheme = "''BeArEr''" and ws = "[CHR 0x09, CHR '' '']"
      and pre = "'' ''" and post = "''  ''" and x = "''abc.def''" and h = "''Token abc''"
      and e = "raise_error Authorization msg_header_invalid" and hdr = "'' bearer  X ''"
      and t = "''X''" and lead = "'' ''" and other = "''Digest''" and rest = "'' X''"]
  have 1: "extract_token_from_header (Some ('' '' @ ''BeArEr'' @ [CHR 0x09, CHR '' ''] @ ''abc.def'' @ ''  ''))
     = Inr ''abc.def''"
    using T h by blast
  have 2: "\<exists>pre scheme ws post. '' bearer  X '' = pre @ scheme @ ws @ ''X'' @ post \<and>
      list_all str_isspace pre \<and> list_all str_isspace post \<and>
      str_lower scheme = ''bearer'' \<and> ws \<noteq> [] \<and> list_all str_isspace ws"
    using T g by blast
  have 3: "extract_token_from_header (Some ('' '' @ ''Digest'' @ '' X'')) =
     Inl (raise_error Authorization msg_header_invalid)"
    using T h(3) d by blast
  from h(1,2,5,6) 1 2 d(3) 3 f show ?thesis by (intro conjI)
qed

text \<open>
  C10, as stated, fails: \<open>Bearer X\<close> yields \<open>X\<close>, and \<open>X\<close> is rejected with the
  Authorization error.
\<close>

theorem C10_idempotence_counterexample:
  "extract_token_from_header (Some ''Bearer X'') = Inr ''X'' \<and>
   extract_token_from_header (Some ''X'') = Inl (raise_error Authorization msg_header_invalid) \<and>
   extract_token_from_header (Some ''X'') \<noteq> Inr ''X''"
  by (simp add: extract_token_from_header_def string_eval)

text \<open>
  C10, amended. Extraction is not idempotent: whenever it succeeds on a header with
  result \<open>t\<close>, the result is strictly shorter than the header and extraction applied to
  \<open>t\<close> does not return \<open>t\<close>. What is stable is the token under the scheme: extraction
  applied to \<open>Bearer\<close>, a space and \<open>t\<close> returns \<open>t\<close> again.
\<close>

theorem C10_extraction_not_idempotent:
  assumes "extract_token_from_header (Some h) = Inr t"
  shows "length t < length h \<and> extract_token_from_header (Some t) \<noteq> Inr t \<and>
         extract_token_from_header (Some (''Bearer '' @ t)) = Inr t"
proof -
  from extract_token_from_header_shorter [OF assms] have 1: "length t < length h" by simp
  have 2: "extract_token_from_header (Some t) \<noteq> Inr t"
  proof
    assume "extract_token_from_header (Some t) = Inr t"
    from extract_token_from_header_shorter [OF this] show False by simp
  qed
  from 1 2 extract_token_from_header_rewrap [OF assms] show ?thesis by simp
qed

text \<open>C10 as amended, at the header \<open>Bearer X\<close> in lower case with padding.\<close>

theorem C10_extraction_not_idempotent_witness:
  "extract_token_from_header (Some '' bearer   X  '') = Inr ''X'' \<and>
   length ''X'' < length '' bearer   X  '' \<and>
   extract_token_from_header (Some ''X'') \<noteq> Inr ''X'' \<and>
   extract_token_from_header (Some ''Bearer X'') = Inr ''X''"
proof -
  have h: "extract_token_from_header (Some '' bearer   X  '') = Inr ''X''"
    by (simp add: extract_token_from_header_def string_eval)
  from C10_extraction_not_idempotent [OF h] h show ?thesis by simp
qed

subsection \<open>Event extraction\<close>

lemma lower_examples:
  "str_lower ''Authorization'' = ''authorization''"
  "str_lower ''authorization'' = ''authorization''"
  "str_lower ''AuThOrIzAtIoN'' = ''authorization''"
  "str_lower ''Content-Type'' = ''content-type''"
  by (simp_all add: string_eval)

text \<open>
  Where the \<open>headers\<close> entry is missing or is a dict of strings, the function does what
  its docstring says: the first entry whose key is \<open>authorization\<close> in lower case
  decides, with the result of \<open>extract_token_from_header\<close> on its value, and without
  such an entry the Validation error is raised.
\<close>

lemma extract_token_from_event_found:
  assumes "map_of event ''headers'' = Some (JObj (pre @ (k, JStr v) # post))"
    and "list_all (\<lambda>kv. str_lower (fst kv) \<noteq> ''authorization'') pre"
    and "str_lower k = ''authorization''"
  shows "extract_token_from_event event =
     (case extract_token_from_header (Some v) of Inl e \<Rightarrow> Inl (Own e) | Inr token \<Rightarrow> Inr token)"
proof -
  have "list_all (\<lambda>x. \<not> (case x of (key, value) \<Rightarrow> str_lower key = ''authorization'')) pre"
    using assms(2) by (simp add: list_all_iff case_prod_unfold)
  from find_skip [of "\<lambda>(key, value). str_lower key = ''authorization''", OF this, of "(k, JStr v)" post]
  have "find (\<lambda>(key, value). str_lower key = ''authorization'') (pre @ (k, JStr v) # post)
      = Some (k, JStr v)"
    using assms(3) by simp
  then show ?thesis
    by (simp add: extract_token_from_event_def assms(1) extract_token_from_header_def)
qed

lemma extract_token_from_event_missing:
  assumes "map_of event ''headers'' = None \<or>
    (\<exists>hs. map_of event ''headers'' = Some (JObj hs) \<and>
          list_all (\<lambda>kv. str_lower (fst kv) \<noteq> ''authorization'') hs)"
  shows "extract_token_from_event event = Inl (Own (raise_error Validation msg_auth_required))"
proof -
  have "find (\<lambda>(key, value). str_lower key = ''authorization'') hs = None"
    if "list_all (\<lambda>kv. str_lower (fst kv) \<noteq> ''authorization'') hs" for hs :: "(string \<times> json) list"
    using that by (intro find_none) (simp add: list_all_iff case_prod_unfold)
  with assms show ?thesis
    by (auto simp: extract_token_from_event_def)
qed

lemma extract_token_from_event_examples:
  "extract_token_from_event [(''headers'', JObj [(''Authorization'', JStr v)])] =
     (case extract_token_from_header (Some v) of Inl e \<Rightarrow> Inl (Own e) | Inr token \<Rightarrow> Inr token)"
  "extract_token_from_event [(''headers'', JObj [(''authorization'', JStr v)])] =
     (case extract_token_from_header (Some v) of Inl e \<Rightarrow> Inl (Own e) | Inr token \<Rightarrow> Inr token)"
  "extract_token_from_event [(''headers'', JObj [(''AuThOrIzAtIoN'', JStr v)])] =
     (case extract_token_from_header (Some v) of Inl e \<Rightarrow> Inl (Own e) | Inr token \<Rightarrow> Inr token)"
  using extract_token_from_event_found [of _ "[]" _ v "[]", OF _ _ lower_examples(1)]
    extract_token_from_event_found [of _ "[]" _ v "[]", OF _ _ lower_examples(2)]
    extract_token_from_event_found [of _ "[]" _ v "[]", OF _ _ lower_examples(3)]
  by simp_all

text \<open>
  C7 fails for an event whose \<open>headers\<close> entry is null: \<open>event.get('headers', {})\<close>
  returns the null, the loop over \<open>headers.items()\<close> raises an AttributeError, and the
  caller gets that instead of the Validation error that an event without headers, with
  empty headers, or with headers that lack the key gets, and that the docstring
  promises for a token that was not provided.
\<close>

theorem C7_null_headers_attribute_error:
  "extract_token_from_event [(''headers'', JNull)] =
     Inl (Foreign (AttributeError (attribute_error JNull ''items''))) \<and>
   attribute_error JNull ''items'' = ascii (CHR 0x27 # ''NoneType'' @ CHR 0x27 #
     '' object has no attribute '' @ CHR 0x27 # ''items'' @ [CHR 0x27]) \<and>
   extract_token_from_event [] = Inl (Own (raise_error Validation msg_auth_required)) \<and>
   extract_token_from_event [(''headers'', JObj [])] =
     Inl (Own (raise_error Validation msg_auth_required)) \<and>
   extract_token_from_event [(''headers'', JObj [(''Content-Type'', JStr ''application/json'')])] =
     Inl (Own (raise_error Validation msg_auth_required)) \<and>
   extract_token_from_event [(''headers'', JObj [(''AuThOrIzAtIoN'', JStr ''Bearer abc'')])] =
     Inr ''abc''"
  by (simp add: extract_token_from_event_def extract_token_from_header_def attribute_error_def
      string_eval)

subsection \<open>Token validation\<close>

lemma validate_token_nonempty:
  "tok \<noteq> [] \<Longrightarrow> validate_token E self log (Some tok) =
     (case validate_token_body E self log tok of
        (Inl e, self1, log1) \<Rightarrow> (Inl (handle_exception e), self1, log1)
      | (Inr payload, self1, log1) \<Rightarrow> (Inr payload, self1, log1))"
  by (simp add: validate_token_def)

lemma body_header_raises:
  "get_unverified_header E tok = Inl x \<Longrightarrow>
   validate_token_body E self log tok = (Inl (Foreign x), self, log @ [GetUnverifiedHeader tok])"
  by (simp add: validate_token_body_def)

lemma body_no_kid:
  "get_unverified_header E tok = Inr hdr \<Longrightarrow> map_of hdr ''kid'' = None \<or> map_of hdr ''kid'' = Some [] \<Longrightarrow>
   validate_token_body E self log tok =
     (Inl (Own (raise_error Authorization msg_token_invalid)), self, log @ [GetUnverifiedHeader tok])"
  by (auto simp: validate_token_body_def)

lemma body_key_fails:
  "get_unverified_header E tok = Inr hdr \<Longrightarrow> map_of hdr ''kid'' = Some kid \<Longrightarrow> kid \<noteq> [] \<Longrightarrow>
   get_public_key E self (log @ [GetUnverifiedHeader tok]) kid = (Inl e, self2, log2) \<Longrightarrow>
   validate_token_body E self log tok = (Inl e, self2, log2)"
  by (simp add: validate_token_body_def)

lemma body_decode:
  "get_unverified_header E tok = Inr hdr \<Longrightarrow> map_of hdr ''kid'' = Some kid \<Longrightarrow> kid \<noteq> [] \<Longrightarrow>
   get_public_key E self (log @ [GetUnverifiedHeader tok]) kid = (Inr pk, self2, log2) \<Longrightarrow>
   validate_token_body E self log tok =
     (case jwt_decode E tok pk of
        Inl x \<Rightarrow> (Inl (Foreign x), self2, log2 @ [JwtDecode tok])
      | Inr payload \<Rightarrow>
          if dict_get payload ''token_use'' \<noteq> JStr ''access''
          then (Inl (Own (raise_error Authorization msg_token_invalid)), self2, log2 @ [JwtDecode tok])
          else (Inr payload, self2, log2 @ [JwtDecode tok]))"
  by (simp add: validate_token_body_def)

lemma get_public_key_unknown_kid:
  "load_jwks E self log = (Inr doc, self1, log1) \<Longrightarrow>
   list_all (\<lambda>key. map_of key ''kid'' \<noteq> Some kid) (case map_of doc ''keys'' of None \<Rightarrow> [] | Some ks \<Rightarrow> ks) \<Longrightarrow>
   get_public_key E self log kid = (Inl (Own (raise_error Authorization msg_token_invalid)), self1, log1)"
  by (simp add: get_public_key_def find_none)

lemma load_jwks_raises:
  "load_jwks E self log = (Inl e, self1, log1) \<Longrightarrow>
   (\<exists>m. e = Own (raise_error Service (msg_jwks_failed @ m))) \<or> (\<exists>x. e = Foreign x)"
  by (auto simp: load_jwks_def fetch_jwks_def Let_def
      split: option.splits if_splits sum.splits py_exception.splits)

lemma get_public_key_raises:
  "get_public_key E self log kid = (Inl e, self1, log1) \<Longrightarrow>
   (\<exists>m. e = Own (raise_error Service (msg_jwks_failed @ m))) \<or> (\<exists>x. e = Foreign x)
   \<or> e = Own (raise_error Authorization msg_token_invalid)"
  unfolding get_public_key_def
  by (auto split: prod.splits sum.splits option.splits dest: load_jwks_raises)

lemma body_raises:
  "validate_token_body E self log tok = (Inl e, self1, log1) \<Longrightarrow>
   (\<exists>m. e = Own (raise_error Service (msg_jwks_failed @ m))) \<or> (\<exists>x. e = Foreign x)
   \<or> e = Own (raise_error Authorization msg_token_invalid)"
  unfolding validate_token_body_def Let_def
  by (auto split: prod.splits sum.splits option.splits if_splits dest: get_public_key_raises)

lemma body_returns:
  "validate_token_body E self log tok = (Inr payload, self1, log1) \<Longrightarrow>
   dict_get payload ''token_use'' = JStr ''access''"
  unfolding validate_token_body_def Let_def
  by (auto split: prod.splits sum.splits option.splits if_splits)

lemma messages_differ: "msg_token_expired \<noteq> msg_token_invalid"
  by (simp add: msg_token_expired_def msg_token_invalid_def)

lemma handle_exception_authorization:
  assumes "(\<exists>m. e = Own (raise_error Service (msg_jwks_failed @ m))) \<or> (\<exists>x. e = Foreign x)
     \<or> e = Own (raise_error Authorization msg_token_invalid)"
    and "category (handle_exception e) = Authorization"
  shows "handle_exception e = raise_error Authorization msg_token_invalid \<or>
         (handle_exception e = raise_error Authorization msg_token_expired \<and>
          (\<exists>m. e = Foreign (ExpiredSignatureError m)))"
proof -
  from assms(1) consider m where "e = Own (raise_error Service (msg_jwks_failed @ m))"
    | x where "e = Foreign x" | "e = Own (raise_error Authorization msg_token_invalid)"
    by blast
  then show ?thesis
  proof cases
    case 1
    with assms(2) show ?thesis by (simp add: raise_error_def)
  next
    case 2
    with assms(2) show ?thesis by (cases x) (simp_all add: raise_error_def)
  next
    case 3
    then show ?thesis by (simp add: raise_error_def)
  qed
qed


lemmas validator_eval = validate_token_def validate_token_body_def get_public_key_def load_jwks_def
  fetch_jwks_def TokenValidator_def gets_issued_def dict_get_def sample_env_def sample_jwks_def
  raise_error_def

lemma sample_get_public_key:
  "get_public_key (sample_env ''test_kid'' outcome) (TokenValidator ''pool'' ''us-east-1'')
     ([] @ [GetUnverifiedHeader ''a.b.c'']) ''test_kid'' =
   (Inr [(''kid'', ''test_kid''), (''kty'', ''RSA''), (''n'', ''test_n''), (''e'', ''AQAB'')],
    (TokenValidator ''pool'' ''us-east-1'')\<lparr>jwks_cache := Some sample_jwks\<rparr>,
    [GetUnverifiedHeader ''a.b.c'',
     RequestsGet ''https://cognito-idp.us-east-1.amazonaws.com/pool/.well-known/jwks.json'',
     FromJwk [(''kid'', ''test_kid''), (''kty'', ''RSA''), (''n'', ''test_n''), (''e'', ''AQAB'')]])"
  by (simp add: validator_eval)

text \<open>
  C1. The expired message differs from the generic one. A token that reaches
  \<open>jwt.decode\<close> (header parsed, key identifier present, key found and converted) and
  is rejected there with \<open>ExpiredSignatureError\<close> fails with the Authorization error
  carrying the expired message. A header without key identifier (or with an empty one),
  a key identifier that no entry of the loaded key set carries, a
  \<open>DecodeError\<close>, \<open>InvalidSignatureError\<close> or \<open>InvalidTokenError\<close> from parsing the
  header or from decoding, and a decoded \<open>token_use\<close> other than \<open>access\<close> all fail with
  the Authorization error carrying the generic message. There is no third case: an
  Authorization error from \<open>validate_token\<close> is one of these two, and it is the expired one
  only when a library call inside the \<open>try\<close> block raised \<open>ExpiredSignatureError\<close>.
\<close>

theorem C1_authorization_messages:
  "msg_token_expired \<noteq> msg_token_invalid \<and>
   (tok \<noteq> [] \<and> get_unverified_header E tok = Inr hdr \<and> map_of hdr ''kid'' = Some kid \<and> kid \<noteq> [] \<and>
    get_public_key E self (log @ [GetUnverifiedHeader tok]) kid = (Inr pk, self2, log2) \<and>
    jwt_decode E tok pk = Inl (ExpiredSignatureError m)
    \<longrightarrow> fst (validate_token E self log (Some tok)) = Inl (raise_error Authorization msg_token_expired)) \<and>
   (tok \<noteq> [] \<and> get_unverified_header E tok = Inr hdr \<and>
    (map_of hdr ''kid'' = None \<or> map_of hdr ''kid'' = Some [])
    \<longrightarrow> fst (validate_token E self log (Some tok)) = Inl (raise_error Authorization msg_token_invalid)) \<and>
   (tok \<noteq> [] \<and> get_unverified_header E tok = Inr hdr \<and> map_of hdr ''kid'' = Some kid \<and> kid \<noteq> [] \<and>
    load_jwks E self (log @ [GetUnverifiedHeader tok]) = (Inr doc, self1, log1) \<and>
    list_all (\<lambda>key. map_of key ''kid'' \<noteq> Some kid)
      (case map_of doc ''keys'' of None \<Rightarrow> [] | Some ks \<Rightarrow> ks)
    \<longrightarrow> fst (validate_token E self log (Some tok)) = Inl (raise_error Authorization msg_token_invalid)) \<and>
   (tok \<noteq> [] \<and>
    (get_unverified_header E tok = Inl (DecodeError m) \<or>
     get_unverified_header E tok = Inl (InvalidSignatureError m) \<or>
     get_unverified_header E tok = Inl (InvalidTokenError m))
    \<longrightarrow> fst (validate_token E self log (Some tok)) = Inl (raise_error Authorization msg_token_invalid)) \<and>
   (tok \<noteq> [] \<and> get_unverified_header E tok = Inr hdr \<and> map_of hdr ''kid'' = Some kid \<and> kid \<noteq> [] \<and>
    get_public_key E self (log @ [GetUnverifiedHeader tok]) kid = (Inr pk, self2, log2) \<and>
    (jwt_decode E tok pk = Inl (DecodeError m) \<or>
     jwt_decode E tok pk = Inl (InvalidSignatureError m) \<or>
     jwt_decode E tok pk = Inl (InvalidTokenError m))
    \<longrightarrow> fst (validate_token E self log (Some tok)) = Inl (raise_error Authorization msg_token_invalid)) \<and>
   (tok \<noteq> [] \<and> get_unverified_header E tok = Inr hdr \<and> map_of hdr ''kid'' = Some kid \<and> kid \<noteq> [] \<and>
    get_public_key E self (log @ [GetUnverifiedHeader tok]) kid = (Inr pk, self2, log2) \<and>
    jwt_decode E tok pk = Inr payload \<and> dict_get payload ''token_use'' \<noteq> JStr ''access''
    \<longrightarrow> fst (validate_token E self log (Some tok)) = Inl (raise_error Authorization msg_token_invalid)) \<and>
   (fst (validate_token E self log token) = Inl e \<and> category e = Authorization
    \<longrightarrow> e = raise_error Authorization msg_token_invalid \<or>
        (e = raise_error Authorization msg_token_expired \<and>
         (\<exists>t m. token = Some t \<and>
            fst (validate_token_body E self log t) = Inl (Foreign (ExpiredSignatureError m)))))"
proof -
  have expired: "fst (validate_token E self log (Some tok)) = Inl (raise_error Authorization msg_token_expired)"
    if "tok \<noteq> []" "get_unverified_header E tok = Inr hdr" "map_of hdr ''kid'' = Some kid" "kid \<noteq> []"
      "get_public_key E self (log @ [GetUnverifiedHeader tok]) kid = (Inr pk, self2, log2)"
      "jwt_decode E tok pk = Inl (ExpiredSignatureError m)"
    using that by (simp add: validate_token_nonempty body_decode [OF that(2-5)])
  have no_kid: "fst (validate_token E self log (Some tok)) = Inl (raise_error Authorization msg_token_invalid)"
    if "tok \<noteq> []" "get_unverified_header E tok = Inr hdr"
      "map_of hdr ''kid'' = None \<or> map_of hdr ''kid'' = Some []"
    using that by (simp add: validate_token_nonempty body_no_kid [OF that(2,3)] raise_error_def)
  have unknown_kid: "fst (validate_token E self log (Some tok)) = Inl (raise_error Authorization msg_token_invalid)"
    if "tok \<noteq> []" "get_unverified_header E tok = Inr hdr" "map_of hdr ''kid'' = Some kid" "kid \<noteq> []"
      "load_jwks E self (log @ [GetUnverifiedHeader tok]) = (Inr doc, self1, log1)"
      "list_all (\<lambda>key. map_of key ''kid'' \<noteq> Some kid)
         (case map_of doc ''keys'' of None \<Rightarrow> [] | Some ks \<Rightarrow> ks)"
    using that(1)
    by (simp add: validate_token_nonempty
        body_key_fails [OF that(2-4) get_public_key_unknown_kid [OF that(5,6)]] raise_error_def)
  have bad_header: "fst (validate_token E self log (Some tok)) = Inl (raise_error Authorization msg_token_invalid)"
    if "tok \<noteq> []" "get_unverified_header E tok = Inl x"
      "x = DecodeError m \<or> x = InvalidSignatureError m \<or> x = InvalidTokenError m" for x
    using that by (auto simp: validate_token_nonempty body_header_raises)
  have bad_token: "fst (validate_token E self log (Some tok)) = Inl (raise_error Authorization msg_token_invalid)"
    if "tok \<noteq> []" "get_unverified_header E tok = Inr hdr" "map_of hdr ''kid'' = Some kid" "kid \<noteq> []"
      "get_public_key E self (log @ [GetUnverifiedHeader tok]) kid = (Inr pk, self2, log2)"
      "jwt_decode E tok pk = Inl x"
      "x = DecodeError m \<or> x = InvalidSignatureError m \<or> x = InvalidTokenError m" for x
    using that(1,6,7) by (auto simp: validate_token_nonempty body_decode [OF that(2-5)])
  have wrong_use: "fst (validate_token E self log (Some tok)) = Inl (raise_error Authorization msg_token_invalid)"
    if "tok \<noteq> []" "get_unverified_header E tok = Inr hdr" "map_of hdr ''kid'' = Some kid" "kid \<noteq> []"
      "get_public_key E self (log @ [GetUnverifiedHeader tok]) kid = (Inr pk, self2, log2)"
      "jwt_decode E tok pk = Inr payload" "dict_get payload ''token_use'' \<noteq> JStr ''access''"
    using that(1,6,7)
    by (simp add: validate_token_nonempty body_decode [OF that(2-5)] raise_error_def)
  have only: "e = raise_error Authorization msg_token_invalid \<or>
        (e = raise_error Authorization msg_token_expired \<and>
         (\<exists>t m. token = Some t \<and>
            fst (validate_token_body E self log t) = Inl (Foreign (ExpiredSignatureError m))))"
    if r: "fst (validate_token E self log token) = Inl e" and c: "category e = Authorization"
  proof (cases token)
    case None
    with r c show ?thesis by (auto simp: validate_token_def raise_error_def)
  next
    case (Some t)
    show ?thesis
    proof (cases "t = []")
      case True
      with Some r c show ?thesis by (auto simp: validate_token_def raise_error_def)
    next
      case False
      obtain res s1 l1 where b: "validate_token_body E self log t = (res, s1, l1)"
        by (cases "validate_token_body E self log t") auto
      with r Some False obtain x where x: "res = Inl x" "e = handle_exception x"
        by (cases res) (auto simp: validate_token_nonempty)
      from body_raises [OF b [unfolded x(1)]] c x(2)
      have "handle_exception x = raise_error Authorization msg_token_invalid \<or>
         (handle_exception x = raise_error Authorization msg_token_expired \<and>
          (\<exists>m. x = Foreign (ExpiredSignatureError m)))"
        by (intro handle_exception_authorization) simp_all
      with x b Some show ?thesis by auto
    qed
  qed
  show ?thesis
    apply (intro conjI impI)
           apply (rule messages_differ)
          apply (elim conjE, erule (5) expired)
         apply (elim conjE, erule (2) no_kid)
        apply (elim conjE, erule (5) unknown_kid)
       apply (elim conjE disjE; erule (1) bad_header; simp)
      apply (elim conjE disjE; erule (5) bad_token; simp)
     apply (elim conjE, erule (6) wrong_use)
    apply (elim conjE, erule (1) only)
    done
qed


text \<open>
  C1 on the sample collaborators: an expired token, a header with an empty key
  identifier, an unknown key identifier, a bad signature and an id token.
\<close>

theorem C1_authorization_messages_witness:
  "fst (validate_token (sample_env ''test_kid'' (Inl (ExpiredSignatureError (ascii ''Signature has expired''))))
         (TokenValidator ''pool'' ''us-east-1'') [] (Some ''a.b.c''))
     = Inl (raise_error Authorization msg_token_expired) \<and>
   fst (validate_token (sample_env [] (Inr [])) (TokenValidator ''pool'' ''us-east-1'') [] (Some ''a.b.c''))
     = Inl (raise_error Authorization msg_token_invalid) \<and>
   fst (validate_token (sample_env ''nonexistent_kid'' (Inr [])) (TokenValidator ''pool'' ''us-east-1'') []
         (Some ''a.b.c''))
     = Inl (raise_error Authorization msg_token_invalid) \<and>
   fst (validate_token (sample_env ''test_kid'' (Inl (InvalidSignatureError (ascii ''Signature verification failed''))))
         (TokenValidator ''pool'' ''us-east-1'') [] (Some ''a.b.c''))
     = Inl (raise_error Authorization msg_token_invalid) \<and>
   fst (validate_token (sample_env ''test_kid'' (Inr [(''token_use'', JStr ''id'')]))
         (TokenValidator ''pool'' ''us-east-1'') [] (Some ''a.b.c''))
     = Inl (raise_error Authorization msg_token_invalid)"
proof -
  let ?v = "TokenValidator ''pool'' ''us-east-1''"
  let ?key = "[(''kid'', ''test_kid''), (''kty'', ''RSA''), (''n'', ''test_n''), (''e'', ''AQAB'')]"
  let ?hdr = "\<lambda>kid. [(''alg'', ''RS256''), (''kid'', kid)]"
  let ?v2 = "?v\<lparr>jwks_cache := Some sample_jwks\<rparr>"
  let ?log2 = "[GetUnverifiedHeader ''a.b.c'',
     RequestsGet ''https://cognito-idp.us-east-1.amazonaws.com/pool/.well-known/jwks.json'',
     FromJwk ?key]"
  let ?log1 = "[GetUnverifiedHeader ''a.b.c'',
     RequestsGet ''https://cognito-idp.us-east-1.amazonaws.com/pool/.well-known/jwks.json'']"
  have hdr: "get_unverified_header (sample_env kid outcome) ''a.b.c'' = Inr (?hdr kid)"
    "jwt_decode (sample_env kid outcome) ''a.b.c'' ?key = outcome"
    "map_of (?hdr kid) ''kid'' = Some kid" for kid outcome
    by (simp_all add: sample_env_def)
  have load: "load_jwks (sample_env ''nonexistent_kid'' (Inr [])) ?v ([] @ [GetUnverifiedHeader ''a.b.c''])
      = (Inr sample_jwks, ?v2, ?log1)"
    by (simp add: validator_eval)
  have absent: "list_all (\<lambda>key. map_of key ''kid'' \<noteq> Some ''nonexistent_kid'')
      (case map_of sample_jwks ''keys'' of None \<Rightarrow> [] | Some ks \<Rightarrow> ks)"
    by (simp add: sample_jwks_def)
  have use: "dict_get [(''token_use'', JStr ''id'')] ''token_use'' \<noteq> JStr ''access''"
    by (simp add: dict_get_def)
  note T = C1_authorization_messages [where self = ?v and log = "[]" and tok = "''a.b.c''"
      and pk = ?key and ?self2.0 = ?v2 and ?log2.0 = ?log2]
  from T [where E = "sample_env ''test_kid'' (Inl (ExpiredSignatureError (ascii ''Signature has expired'')))"
      and hdr = "?hdr ''test_kid''" and kid = "''test_kid''" and m = "ascii ''Signature has expired''"]
    hdr sample_get_public_key
  have 1: "fst (validate_token (sample_env ''test_kid'' (Inl (ExpiredSignatureError (ascii ''Signature has expired''))))
         ?v [] (Some ''a.b.c'')) = Inl (raise_error Authorization msg_token_expired)"
    by simp
  from T [where E = "sample_env [] (Inr [])" and hdr = "?hdr []"] hdr
  have 2: "fst (validate_token (sample_env [] (Inr [])) ?v [] (Some ''a.b.c''))
     = Inl (raise_error Authorization msg_token_invalid)"
    by simp
  from T [where E = "sample_env ''nonexistent_kid'' (Inr [])" and hdr = "?hdr ''nonexistent_kid''"
      and kid = "''nonexistent_kid''" and doc = sample_jwks and ?self1.0 = ?v2 and ?log1.0 = ?log1]
    hdr load absent
  have 3: "fst (validate_token (sample_env ''nonexistent_kid'' (Inr [])) ?v [] (Some ''a.b.c''))
     = Inl (raise_error Authorization msg_token_invalid)"
    by simp
  from T [where E = "sample_env ''test_kid'' (Inl (InvalidSignatureError (ascii ''Signature verification failed'')))"
      and hdr = "?hdr ''test_kid''" and kid = "''test_kid''" and m = "ascii ''Signature verification failed''"]
    hdr sample_get_public_key
  have 4: "fst (validate_token (sample_env ''test_kid'' (Inl (InvalidSignatureError (ascii ''Signature verification failed''))))
         ?v [] (Some ''a.b.c'')) = Inl (raise_error Authorization msg_token_invalid)"
    by simp
  from T [where E = "sample_env ''test_kid'' (Inr [(''token_use'', JStr ''id'')])"
      and hdr = "?hdr ''test_kid''" and kid = "''test_kid''" and payload = "[(''token_use'', JStr ''id'')]"]
    hdr sample_get_public_key use
  have 5: "fst (validate_token (sample_env ''test_kid'' (Inr [(''token_use'', JStr ''id'')]))
         ?v [] (Some ''a.b.c'')) = Inl (raise_error Authorization msg_token_invalid)"
    by simp
  from 1 2 3 4 5 show ?thesis by (intro conjI)
qed

text \<open>
  C2. A token that reaches \<open>jwt.decode\<close> and is decoded there (the signature verifies)
  to claims whose \<open>token_use\<close> is not the string \<open>access\<close> (another string, another
  value, or no such claim) fails with the Authorization error carrying the generic
  message; and whatever the collaborators answer, a payload that \<open>validate_token\<close>
  returns has \<open>token_use\<close> equal to \<open>access\<close>.
\<close>

theorem C2_token_use_enforced:
  "(tok \<noteq> [] \<and> get_unverified_header E tok = Inr hdr \<and> map_of hdr ''kid'' = Some kid \<and> kid \<noteq> [] \<and>
    get_public_key E self (log @ [GetUnverifiedHeader tok]) kid = (Inr pk, self2, log2) \<and>
    jwt_decode E tok pk = Inr payload \<and> dict_get payload ''token_use'' \<noteq> JStr ''access''
    \<longrightarrow> validate_token E self log (Some tok) =
          (Inl (raise_error Authorization msg_token_invalid), self2, log2 @ [JwtDecode tok])) \<and>
   (fst (validate_token E self log token) = Inr p \<longrightarrow> dict_get p ''token_use'' = JStr ''access'')"
proof -
  have wrong_use: "validate_token E self log (Some tok) =
          (Inl (raise_error Authorization msg_token_invalid), self2, log2 @ [JwtDecode tok])"
    if "tok \<noteq> []" "get_unverified_header E tok = Inr hdr" "map_of hdr ''kid'' = Some kid" "kid \<noteq> []"
      "get_public_key E self (log @ [GetUnverifiedHeader tok]) kid = (Inr pk, self2, log2)"
      "jwt_decode E tok pk = Inr payload" "dict_get payload ''token_use'' \<noteq> JStr ''access''"
    using that(1,6,7)
    by (simp add: validate_token_nonempty body_decode [OF that(2-5)] raise_error_def)
  have returned: "dict_get p ''token_use'' = JStr ''access''"
    if r: "fst (validate_token E self log token) = Inr p"
  proof (cases token)
    case None
    with r show ?thesis by (simp add: validate_token_def)
  next
    case (Some t)
    show ?thesis
    proof (cases "t = []")
      case True
      with Some r show ?thesis by (simp add: validate_token_def)
    next
      case False
      obtain res s1 l1 where b: "validate_token_body E self log t = (res, s1, l1)"
        by (cases "validate_token_body E self log t") auto
      with r Some False have "res = Inr p"
        by (cases res) (auto simp: validate_token_nonempty)
      with b show ?thesis by (auto dest: body_returns)
    qed
  qed
  show ?thesis
    apply (intro conjI impI)
     apply (elim conjE, erule (6) wrong_use)
    apply (erule returned)
    done
qed

text \<open>C2 on the sample collaborators: an id token, a refresh token and claims without \<open>token_use\<close>.\<close>

theorem C2_token_use_enforced_witness:
  "fst (validate_token (sample_env ''test_kid'' (Inr [(''sub'', JStr ''u1''), (''token_use'', JStr ''id'')]))
         (TokenValidator ''pool'' ''us-east-1'') [] (Some ''a.b.c''))
     = Inl (raise_error Authorization msg_token_invalid) \<and>
   fst (validate_token (sample_env ''test_kid'' (Inr [(''token_use'', JStr ''refresh'')]))
         (TokenValidator ''pool'' ''us-east-1'') [] (Some ''a.b.c''))
     = Inl (raise_error Authorization msg_token_invalid) \<and>
   fst (validate_token (sample_env ''test_kid'' (Inr [(''sub'', JStr ''u1'')]))
         (TokenValidator ''pool'' ''us-east-1'') [] (Some ''a.b.c''))
     = Inl (raise_error Authorization msg_token_invalid) \<and>
   fst (validate_token (sample_env ''test_kid'' (Inr [(''sub'', JStr ''u1''), (''token_use'', JStr ''access'')]))
         (TokenValidator ''pool'' ''us-east-1'') [] (Some ''a.b.c''))
     = Inr [(''sub'', JStr ''u1''), (''token_use'', JStr ''access'')] \<and>
   dict_get [(''sub'', JStr ''u1''), (''token_use'', JStr ''access'')] ''token_use'' = JStr ''access''"
proof -
  let ?v = "TokenValidator ''pool'' ''us-east-1''"
  let ?key = "[(''kid'', ''test_kid''), (''kty'', ''RSA''), (''n'', ''test_n''), (''e'', ''AQAB'')]"
  let ?hdr = "[(''alg'', ''RS256''), (''kid'', ''test_kid'')]"
  let ?v2 = "?v\<lparr>jwks_cache := Some sample_jwks\<rparr>"
  let ?log2 = "[GetUnverifiedHeader ''a.b.c'',
     RequestsGet ''https://cognito-idp.us-east-1.amazonaws.com/pool/.well-known/jwks.json'',
     FromJwk ?key]"
  have hdr: "get_unverified_header (sample_env ''test_kid'' outcome) ''a.b.c'' = Inr ?hdr"
    "jwt_decode (sample_env ''test_kid'' outcome) ''a.b.c'' ?key = outcome"
    "map_of ?hdr ''kid'' = Some ''test_kid''" for outcome
    by (simp_all add: sample_env_def)
  have use: "dict_get [(''sub'', JStr ''u1''), (''token_use'', JStr ''id'')] ''token_use'' \<noteq> JStr ''access''"
    "dict_get [(''token_use'', JStr ''refresh'')] ''token_use'' \<noteq> JStr ''access''"
    "dict_get [(''sub'', JStr ''u1'')] ''token_use'' \<noteq> JStr ''access''"
    by (simp_all add: dict_get_def)
  note T = C2_token_use_enforced [where self = ?v and log = "[]" and tok = "''a.b.c''"
      and pk = ?key and ?self2.0 = ?v2 and ?log2.0 = ?log2 and hdr = ?hdr and kid = "''test_kid''"]
  from T [where E = "sample_env ''test_kid'' (Inr [(''sub'', JStr ''u1''), (''token_use'', JStr ''id'')])"
      and payload = "[(''sub'', JStr ''u1''), (''token_use'', JStr ''id'')]"]
    hdr sample_get_public_key use(1)
  have 1: "fst (validate_token (sample_env ''test_kid'' (Inr [(''sub'', JStr ''u1''), (''token_use'', JStr ''id'')]))
         ?v [] (Some ''a.b.c'')) = Inl (raise_error Authorization msg_token_invalid)"
    by simp
  from T [where E = "sample_env ''test_kid'' (Inr [(''token_use'', JStr ''refresh'')])"
      and payload = "[(''token_use'', JStr ''refresh'')]"]
    hdr sample_get_public_key use(2)
  have 2: "fst (validate_token (sample_env ''test_kid'' (Inr [(''token_use'', JStr ''refresh'')]))
         ?v [] (Some ''a.b.c'')) = Inl (raise_error Authorization msg_token_invalid)"
    by simp
  from T [where E = "sample_env ''test_kid'' (Inr [(''sub'', JStr ''u1'')])"
      and payload = "[(''sub'', JStr ''u1'')]"]
    hdr sample_get_public_key use(3)
  have 3: "fst (validate_token (sample_env ''test_kid'' (Inr [(''sub'', JStr ''u1'')]))
         ?v [] (Some ''a.b.c'')) = Inl (raise_error Authorization msg_token_invalid)"
    by simp
  have 4: "fst (validate_token (sample_env ''test_kid'' (Inr [(''sub'', JStr ''u1''), (''token_use'', JStr ''access'')]))
         ?v [] (Some ''a.b.c''))
     = Inr [(''sub'', JStr ''u1''), (''token_use'', JStr ''access'')]"
    by (simp add: validator_eval)
  from T [where E = "sample_env ''test_kid'' (Inr [(''sub'', JStr ''u1''), (''token_use'', JStr ''access'')])"
      and token = "Some ''a.b.c''" and p = "[(''sub'', JStr ''u1''), (''token_use'', JStr ''access'')]"] 4
  have 5: "dict_get [(''sub'', JStr ''u1''), (''token_use'', JStr ''access'')] ''token_use'' = JStr ''access''"
    by blast
  from 1 2 3 4 5 show ?thesis by (intro conjI)
qed

text \<open>
  C3. For a token that is missing or empty, and whatever the libraries and the endpoint
  would answer, \<open>validate_token\<close> raises the Validation error \<open>Token is required\<close> and
  \<open>validate_and_extract_user_info\<close> the Validation error of a missing authentication;
  the validator (its key-set cache) and the log of calls are unchanged, so no header
  was parsed, no key fetched or converted and no token decoded.
\<close>

theorem C3_empty_token_validation_error:
  "(token = None \<or> token = Some []) \<longrightarrow>
     (\<exists>e. validate_token E self log token = (Inl e, self, log) \<and>
          category e = Validation \<and> category e \<noteq> Authorization \<and>
          message e = ascii ''Token is required'') \<and>
     (\<exists>e. validate_and_extract_user_info E log token pool reg = (Inl (Own e), log) \<and>
          category e = Validation \<and> category e \<noteq> Authorization \<and>
          message e = msg_auth_required)"
  by (auto simp: validate_token_def validate_and_extract_user_info_def raise_error_def)

text \<open>C3 at the empty token and at a missing one, on a validator whose cache is still empty.\<close>

theorem C3_empty_token_validation_error_witness:
  "(\<exists>e. validate_token (sample_env ''test_kid'' (Inr [(''token_use'', JStr ''access'')]))
            (TokenValidator ''pool'' ''us-east-1'') [] (Some []) =
          (Inl e, TokenValidator ''pool'' ''us-east-1'', []) \<and>
        category e = Validation \<and> message e = ascii ''Token is required'') \<and>
   (\<exists>e. validate_and_extract_user_info (sample_env ''test_kid'' (Inr [(''token_use'', JStr ''access'')]))
            [] None (Some ''pool'') ''us-east-1'' = (Inl (Own e), []) \<and>
        category e = Validation \<and> message e = msg_auth_required)"
proof -
  let ?E = "sample_env ''test_kid'' (Inr [(''token_use'', JStr ''access'')])"
  from C3_empty_token_validation_error [of "Some []" ?E "TokenValidator ''pool'' ''us-east-1''" "[]"]
  have 1: "\<exists>e. validate_token ?E (TokenValidator ''pool'' ''us-east-1'') [] (Some []) =
          (Inl e, TokenValidator ''pool'' ''us-east-1'', []) \<and>
        category e = Validation \<and> message e = ascii ''Token is required''"
    by blast
  from C3_empty_token_validation_error [of None ?E _ "[]" "Some ''pool''" "''us-east-1''"]
  have 2: "\<exists>e. validate_and_extract_user_info ?E [] None (Some ''pool'') ''us-east-1'' = (Inl (Own e), []) \<and>
        category e = Validation \<and> message e = msg_auth_required"
    by blast
  from 1 2 show ?thesis by (rule conjI)
qed


subsection \<open>The key-set cache\<close>

lemma jwks_cache_hit:
  assumes "jwks_cache self = Some doc" "doc \<noteq> []"
    and "get_public_key E self log kid = (r, self1, log1)"
  shows "self1 = self \<and> gets_issued log1 = gets_issued log"
  using assms
  by (auto simp: get_public_key_def load_jwks_def gets_issued_def
      split: option.splits sum.splits)

text \<open>
  C5 fails for an endpoint that answers the empty object: the fetch succeeds and the
  empty document is stored, but an empty dict is not truthy, so the next \<open>_get_public_key\<close>
  on the same validator fetches again and overwrites the cache.
\<close>

theorem C5_empty_document_fetched_twice:
  "get_public_key empty_first_env (TokenValidator ''pool'' ''us-east-1'') [] ''test_kid'' =
     (Inl (Own (raise_error Authorization msg_token_invalid)),
      (TokenValidator ''pool'' ''us-east-1'')\<lparr>jwks_cache := Some []\<rparr>,
      [RequestsGet ''https://cognito-idp.us-east-1.amazonaws.com/pool/.well-known/jwks.json'']) \<and>
   get_public_key empty_first_env ((TokenValidator ''pool'' ''us-east-1'')\<lparr>jwks_cache := Some []\<rparr>)
       [RequestsGet ''https://cognito-idp.us-east-1.amazonaws.com/pool/.well-known/jwks.json'']
       ''test_kid'' =
     (Inr [(''kid'', ''test_kid''), (''kty'', ''RSA''), (''n'', ''test_n''), (''e'', ''AQAB'')],
      (TokenValidator ''pool'' ''us-east-1'')\<lparr>jwks_cache := Some sample_jwks\<rparr>,
      [RequestsGet ''https://cognito-idp.us-east-1.amazonaws.com/pool/.well-known/jwks.json'',
       RequestsGet ''https://cognito-idp.us-east-1.amazonaws.com/pool/.well-known/jwks.json'',
       FromJwk [(''kid'', ''test_kid''), (''kty'', ''RSA''), (''n'', ''test_n''), (''e'', ''AQAB'')]])"
  by (simp add: get_public_key_def load_jwks_def fetch_jwks_def TokenValidator_def gets_issued_def
      empty_first_env_def sample_jwks_def)

subsection \<open>The directory client\<close>

text \<open>
  C9. When the email or the password is missing or empty, \<open>authenticate\<close> raises the
  Validation error \<open>Email and password are required\<close> and the log of calls is unchanged,
  whatever the provider would answer: \<open>initiate_auth\<close> is not called. With both present
  the log grows by exactly that one call.
\<close>

theorem C9_authenticate_requires_credentials:
  "((email = None \<or> email = Some [] \<or> password = None \<or> password = Some []) \<longrightarrow>
      (\<exists>e. authenticate initiate_auth self log email password = (Inl e, log) \<and>
           category e = Validation \<and> message e = ascii ''Email and password are required'')) \<and>
   (em \<noteq> [] \<and> pw \<noteq> [] \<longrightarrow>
      snd (authenticate initiate_auth self log (Some em) (Some pw)) =
        log @ [InitiateAuth (client_id self) em pw])"
proof -
  have guard: "\<exists>e. authenticate initiate_auth self log email password = (Inl e, log) \<and>
           category e = Validation \<and> message e = ascii ''Email and password are required''"
    if "email = None \<or> email = Some [] \<or> password = None \<or> password = Some []"
    using that
    by (auto simp: authenticate_def raise_error_def split: option.splits)
  have call: "snd (authenticate initiate_auth self log (Some em) (Some pw)) =
        log @ [InitiateAuth (client_id self) em pw]"
    if "em \<noteq> []" "pw \<noteq> []"
    using that
    by (auto simp: authenticate_def Let_def split: sum.splits provider_exception.splits)
  from guard call show ?thesis by blast
qed

text \<open>C9 at an empty password, and at a complete pair of credentials.\<close>

theorem C9_authenticate_requires_credentials_witness:
  "(\<exists>e. authenticate sample_provider (CognitoClient ''pool'' ''client'' ''us-east-1'') []
            (Some ''test@example.com'') (Some []) = (Inl e, []) \<and>
        category e = Validation \<and> message e = ascii ''Email and password are required'') \<and>
   snd (authenticate sample_provider (CognitoClient ''pool'' ''client'' ''us-east-1'') []
          (Some ''test@example.com'') (Some ''secret'')) =
     [InitiateAuth ''client'' ''test@example.com'' ''secret'']"
  using C9_authenticate_requires_credentials [of "Some ''test@example.com''" "Some []" sample_provider
      "CognitoClient ''pool'' ''client'' ''us-east-1''" "[]" "''test@example.com''" "''secret''"]
  by simp

subsection \<open>The user-info projection\<close>

lemma scope_of_string:
  "map_of payload ''scope'' = Some (JStr s) \<Longrightarrow> s \<noteq> [] \<Longrightarrow>
   scope_of payload = Inr (JArr (map JStr (str_split s)))"
  by (simp add: scope_of_def dict_get_def)

lemma scope_of_falsy:
  "\<not> truthy (dict_get payload ''scope'') \<Longrightarrow> scope_of payload = Inr (JArr [])"
  by (simp add: scope_of_def)

lemma user_info_projection:
  assumes "tok \<noteq> []" "p \<noteq> []"
    and "validate_token E (TokenValidator p reg) log (Some tok) = (Inr payload, v, log1)"
    and "scope_of payload = Inr sc"
  shows "\<exists>info. validate_and_extract_user_info E log (Some tok) (Some p) reg = (Inr info, log1) \<and>
      dict_get info ''scope'' = sc \<and>
      dict_get info ''user_id'' = dict_get payload ''sub'' \<and>
      dict_get info ''username'' = dict_get payload ''username'' \<and>
      dict_get info ''client_id'' = dict_get payload ''client_id'' \<and>
      dict_get info ''token_use'' = dict_get payload ''token_use'' \<and>
      dict_get info ''auth_time'' = dict_get payload ''auth_time'' \<and>
      dict_get info ''iat'' = dict_get payload ''iat'' \<and>
      dict_get info ''exp'' = dict_get payload ''exp''"
proof -
  let ?info = "[(''user_id'', dict_get payload ''sub''),
       (''username'', dict_get payload ''username''),
       (''client_id'', dict_get payload ''client_id''),
       (''token_use'', dict_get payload ''token_use''),
       (''scope'', sc),
       (''auth_time'', dict_get payload ''auth_time''),
       (''iat'', dict_get payload ''iat''),
       (''exp'', dict_get payload ''exp'')]"
  have "validate_and_extract_user_info E log (Some tok) (Some p) reg = (Inr ?info, log1)"
    using assms by (simp add: validate_and_extract_user_info_def)
  moreover have "dict_get ?info ''scope'' = sc"
    "dict_get ?info ''user_id'' = dict_get payload ''sub''"
    "dict_get ?info ''username'' = dict_get payload ''username''"
    "dict_get ?info ''client_id'' = dict_get payload ''client_id''"
    "dict_get ?info ''token_use'' = dict_get payload ''token_use''"
    "dict_get ?info ''auth_time'' = dict_get payload ''auth_time''"
    "dict_get ?info ''iat'' = dict_get payload ''iat''"
    "dict_get ?info ''exp'' = dict_get payload ''exp''"
    by (simp_all add: dict_get_def [of "_ # _"])
  ultimately show ?thesis by blast
qed

lemma split_from_word:
  "list_all (\<lambda>c. \<not> str_isspace c) w \<Longrightarrow> split_from cur (w @ r) = split_from (cur @ w) r"
  by (induction w arbitrary: cur) auto

lemma str_split_step:
  assumes "w \<noteq> []" "list_all (\<lambda>c. \<not> str_isspace c) w" "str_isspace c"
  shows "str_split (w @ c # r) = w # str_split r"
  using assms by (simp add: str_split_def split_from_word)

lemma str_split_word:
  assumes "w \<noteq> []" "list_all (\<lambda>c. \<not> str_isspace c) w"
  shows "str_split w = [w]"
  using assms split_from_word [of w "[]" "[]"] by (simp add: str_split_def)

lemma str_split_tab_example:
  "str_split (''openid'' @ [CHR 0x09] @ ''profile  email'' @ [CHR 0x0A]) =
     [''openid'', ''profile'', ''email'']"
  by (simp add: str_split_def str_isspace_def)

lemma str_split_example:
  "str_split ''openid profile email'' = [''openid'', ''profile'', ''email'']"
  by (simp add: str_split_def str_isspace_def)

text \<open>
  C8. \<open>openid profile email\<close> splits into its three words, and so does the same
  claim with a tab, two spaces and a final newline between and after the words.
  \<open>str_split\<close> is the split at whitespace: the empty string has no pieces, a leading
  whitespace character is dropped, a non-empty run free of whitespace followed by a
  whitespace character is the first piece and the rest is split in the same way, and
  such a run alone is the only piece; so for every string the pieces are, in order, the
  characters that are not whitespace, each piece non-empty and free of whitespace.
  When \<open>validate_token\<close> returns a payload, a \<open>scope\<close> claim that is a non-empty string
  \<open>s\<close> is projected to the list of the pieces of \<open>s\<close>, a \<open>scope\<close> that is absent or
  empty (or otherwise falsy) to the empty list, and in both cases the projection
  succeeds and the other seven fields are what \<open>payload.get\<close> returns for \<open>sub\<close>,
  \<open>username\<close>, \<open>client_id\<close>, \<open>token_use\<close>, \<open>auth_time\<close>, \<open>iat\<close> and \<open>exp\<close>: the
  claim itself, or \<open>None\<close> for a claim that is missing.
\<close>

theorem C8_user_info_projection:
  "str_split ''openid profile email'' = [''openid'', ''profile'', ''email''] \<and>
   concat (str_split s) = filter (\<lambda>c. \<not> str_isspace c) s \<and>
   list_all (\<lambda>w. w \<noteq> [] \<and> list_all (\<lambda>c. \<not> str_isspace c) w) (str_split s) \<and>
   str_split (''openid'' @ [CHR 0x09] @ ''profile  email'' @ [CHR 0x0A]) =
     [''openid'', ''profile'', ''email''] \<and>
   str_split [] = [] \<and>
   (str_isspace c \<longrightarrow> str_split (c # r) = str_split r) \<and>
   (w \<noteq> [] \<and> list_all (\<lambda>c. \<not> str_isspace c) w \<and> str_isspace c
    \<longrightarrow> str_split (w @ c # r) = w # str_split r) \<and>
   (w \<noteq> [] \<and> list_all (\<lambda>c. \<not> str_isspace c) w \<longrightarrow> str_split w = [w]) \<and>
   (tok \<noteq> [] \<and> p \<noteq> [] \<and>
    validate_token E (TokenValidator p reg) log (Some tok) = (Inr payload, v, log1) \<and>
    map_of payload ''scope'' = Some (JStr s) \<and> s \<noteq> []
    \<longrightarrow> (\<exists>info. validate_and_extract_user_info E log (Some tok) (Some p) reg = (Inr info, log1) \<and>
          dict_get info ''scope'' = JArr (map JStr (str_split s)) \<and>
          dict_get info ''user_id'' = dict_get payload ''sub'' \<and>
          dict_get info ''username'' = dict_get payload ''username'' \<and>
          dict_get info ''client_id'' = dict_get payload ''client_id'' \<and>
          dict_get info ''token_use'' = dict_get payload ''token_use'' \<and>
          dict_get info ''auth_time'' = dict_get payload ''auth_time'' \<and>
          dict_get info ''iat'' = dict_get payload ''iat'' \<and>
          dict_get info ''exp'' = dict_get payload ''exp'')) \<and>
   (tok \<noteq> [] \<and> p \<noteq> [] \<and>
    validate_token E (TokenValidator p reg) log (Some tok) = (Inr payload, v, log1) \<and>
    (map_of payload ''scope'' = None \<or> map_of payload ''scope'' = Some (JStr []) \<or>
     \<not> truthy (dict_get payload ''scope''))
    \<longrightarrow> (\<exists>info. validate_and_extract_user_info E log (Some tok) (Some p) reg = (Inr info, log1) \<and>
          dict_get info ''scope'' = JArr [] \<and>
          dict_get info ''user_id'' = dict_get payload ''sub'' \<and>
          dict_get info ''username'' = dict_get payload ''username'' \<and>
          dict_get info ''client_id'' = dict_get payload ''client_id'' \<and>
          dict_get info ''token_use'' = dict_get payload ''token_use'' \<and>
          dict_get info ''auth_time'' = dict_get payload ''auth_time'' \<and>
          dict_get info ''iat'' = dict_get payload ''iat'' \<and>
          dict_get info ''exp'' = dict_get payload ''exp'')) \<and>
   (map_of payload k = None \<longrightarrow> dict_get payload k = JNull)"
proof -
  have pieces: "concat (str_split s) = filter (\<lambda>c. \<not> str_isspace c) s"
    by (simp add: str_split_def split_from_concat)
  have words: "list_all (\<lambda>w. w \<noteq> [] \<and> list_all (\<lambda>c. \<not> str_isspace c) w) (str_split s)"
    unfolding str_split_def by (rule split_from_words) simp
  have falsy: "\<not> truthy (dict_get payload ''scope'')"
    if "map_of payload ''scope'' = None \<or> map_of payload ''scope'' = Some (JStr []) \<or>
        \<not> truthy (dict_get payload ''scope'')"
    using that by (auto simp: dict_get_def)
  have missing: "dict_get payload k = JNull" if "map_of payload k = None"
    using that by (simp add: dict_get_def)
  have skip: "str_split (c # r) = str_split r" if "str_isspace c"
    using that by (simp add: str_split_def)
  show ?thesis
    apply (intro conjI impI)
             apply (rule str_split_example)
            apply (rule pieces)
           apply (rule words)
          apply (rule str_split_tab_example)
         apply (simp add: str_split_def)
        apply (erule skip)
       apply (elim conjE, erule (2) str_split_step)
      apply (elim conjE, erule (1) str_split_word)
     apply (elim conjE, erule (2) user_info_projection, erule (1) scope_of_string)
    apply (elim conjE, erule (2) user_info_projection, rule scope_of_falsy, erule falsy)
    apply (erule missing)
    done
qed

text \<open>
  C8 on the sample collaborators, for the claims of the repository's test and for claims
  without scope, and the split at a tab.
\<close>

theorem C8_user_info_projection_witness:
  "(\<exists>info. validate_and_extract_user_info
       (sample_env ''test_kid''
          (Inr [(''sub'', JStr ''user123''), (''token_use'', JStr ''access''),
                (''scope'', JStr ''openid profile email''), (''exp'', JNum 1234571490)]))
       [] (Some ''a.b.c'') (Some ''pool'') ''us-east-1''
       = (Inr info,
          [GetUnverifiedHeader ''a.b.c'',
           RequestsGet ''https://cognito-idp.us-east-1.amazonaws.com/pool/.well-known/jwks.json'',
           FromJwk [(''kid'', ''test_kid''), (''kty'', ''RSA''), (''n'', ''test_n''), (''e'', ''AQAB'')],
           JwtDecode ''a.b.c'']) \<and>
     dict_get info ''scope'' = JArr [JStr ''openid'', JStr ''profile'', JStr ''email''] \<and>
     dict_get info ''user_id'' = JStr ''user123'' \<and> dict_get info ''username'' = JNull \<and>
     dict_get info ''exp'' = JNum 1234571490) \<and>
   (\<exists>info. validate_and_extract_user_info
       (sample_env ''test_kid'' (Inr [(''sub'', JStr ''user123''), (''token_use'', JStr ''access'')]))
       [] (Some ''a.b.c'') (Some ''pool'') ''us-east-1''
       = (Inr info,
          [GetUnverifiedHeader ''a.b.c'',
           RequestsGet ''https://cognito-idp.us-east-1.amazonaws.com/pool/.well-known/jwks.json'',
           FromJwk [(''kid'', ''test_kid''), (''kty'', ''RSA''), (''n'', ''test_n''), (''e'', ''AQAB'')],
           JwtDecode ''a.b.c'']) \<and>
     dict_get info ''scope'' = JArr [] \<and> dict_get info ''user_id'' = JStr ''user123'') \<and>
   str_split (''openid'' @ CHR 0x09 # ''profile'') = ''openid'' # str_split ''profile'' \<and>
   str_split (CHR 0x09 # ''profile'') = str_split ''profile'' \<and>
   str_split ''openid'' = [''openid'']"
proof -
  let ?p1 = "[(''sub'', JStr ''user123''), (''token_use'', JStr ''access''),
                (''scope'', JStr ''openid profile email''), (''exp'', JNum 1234571490)]"
  let ?p2 = "[(''sub'', JStr ''user123''), (''token_use'', JStr ''access'')]"
  let ?key = "[(''kid'', ''test_kid''), (''kty'', ''RSA''), (''n'', ''test_n''), (''e'', ''AQAB'')]"
  let ?log = "[GetUnverifiedHeader ''a.b.c'',
           RequestsGet ''https://cognito-idp.us-east-1.amazonaws.com/pool/.well-known/jwks.json'',
           FromJwk ?key, JwtDecode ''a.b.c'']"
  let ?v = "(TokenValidator ''pool'' ''us-east-1'')\<lparr>jwks_cache := Some sample_jwks\<rparr>"
  have v1: "validate_token (sample_env ''test_kid'' (Inr ?p1)) (TokenValidator ''pool'' ''us-east-1'') []
       (Some ''a.b.c'') = (Inr ?p1, ?v, ?log)"
    by (simp add: validator_eval)
  have v2: "validate_token (sample_env ''test_kid'' (Inr ?p2)) (TokenValidator ''pool'' ''us-east-1'') []
       (Some ''a.b.c'') = (Inr ?p2, ?v, ?log)"
    by (simp add: validator_eval)
  have s1: "map_of ?p1 ''scope'' = Some (JStr ''openid profile email'')"
    "dict_get ?p1 ''sub'' = JStr ''user123''" "dict_get ?p1 ''username'' = JNull"
    "dict_get ?p1 ''exp'' = JNum 1234571490"
    by (simp_all add: dict_get_def)
  have s2: "map_of ?p2 ''scope'' = None" "dict_get ?p2 ''sub'' = JStr ''user123''"
    by (simp_all add: dict_get_def)
  note T1 = C8_user_info_projection [where s = "''openid profile email''" and tok = "''a.b.c''"
      and p = "''pool''" and reg = "''us-east-1''" and log = "[]" and payload = ?p1 and v = ?v
      and ?log1.0 = ?log and E = "sample_env ''test_kid'' (Inr ?p1)",
      THEN conjunct2, THEN conjunct2, THEN conjunct2, THEN conjunct2, THEN conjunct2,
      THEN conjunct2, THEN conjunct2, THEN conjunct2, THEN conjunct1, THEN mp]
  have h1: "''a.b.c'' \<noteq> [] \<and> ''pool'' \<noteq> [] \<and>
    validate_token (sample_env ''test_kid'' (Inr ?p1)) (TokenValidator ''pool'' ''us-east-1'') []
       (Some ''a.b.c'') = (Inr ?p1, ?v, ?log) \<and>
    map_of ?p1 ''scope'' = Some (JStr ''openid profile email'') \<and> ''openid profile email'' \<noteq> []"
    using v1 s1(1) by simp
  from T1 [OF h1] obtain info where
    "validate_and_extract_user_info (sample_env ''test_kid'' (Inr ?p1))
       [] (Some ''a.b.c'') (Some ''pool'') ''us-east-1'' = (Inr info, ?log)"
    "dict_get info ''scope'' = JArr (map JStr (str_split ''openid profile email''))"
    "dict_get info ''user_id'' = dict_get ?p1 ''sub''"
    "dict_get info ''username'' = dict_get ?p1 ''username''"
    "dict_get info ''exp'' = dict_get ?p1 ''exp''"
    by blast
  then have 1: "\<exists>info. validate_and_extract_user_info (sample_env ''test_kid'' (Inr ?p1))
       [] (Some ''a.b.c'') (Some ''pool'') ''us-east-1'' = (Inr info, ?log) \<and>
     dict_get info ''scope'' = JArr [JStr ''openid'', JStr ''profile'', JStr ''email''] \<and>
     dict_get info ''user_id'' = JStr ''user123'' \<and> dict_get info ''username'' = JNull \<and>
     dict_get info ''exp'' = JNum 1234571490"
    unfolding s1(2-4) str_split_example by (intro exI [of _ info]) simp
  note T2 = C8_user_info_projection [where tok = "''a.b.c''"
      and p = "''pool''" and reg = "''us-east-1''" and log = "[]" and payload = ?p2 and v = ?v
      and ?log1.0 = ?log and E = "sample_env ''test_kid'' (Inr ?p2)",
      THEN conjunct2, THEN conjunct2, THEN conjunct2, THEN conjunct2, THEN conjunct2,
      THEN conjunct2, THEN conjunct2, THEN conjunct2, THEN conjunct2, THEN conjunct1, THEN mp]
  have h2: "''a.b.c'' \<noteq> [] \<and> ''pool'' \<noteq> [] \<and>
    validate_token (sample_env ''test_kid'' (Inr ?p2)) (TokenValidator ''pool'' ''us-east-1'') []
       (Some ''a.b.c'') = (Inr ?p2, ?v, ?log) \<and>
    (map_of ?p2 ''scope'' = None \<or> map_of ?p2 ''scope'' = Some (JStr []) \<or>
     \<not> truthy (dict_get ?p2 ''scope''))"
    using v2 s2(1) by simp
  from T2 [OF h2] obtain info where
    "validate_and_extract_user_info (sample_env ''test_kid'' (Inr ?p2))
       [] (Some ''a.b.c'') (Some ''pool'') ''us-east-1'' = (Inr info, ?log)"
    "dict_get info ''scope'' = JArr []"
    "dict_get info ''user_id'' = dict_get ?p2 ''sub''"
    by blast
  then have 2: "\<exists>info. validate_and_extract_user_info (sample_env ''test_kid'' (Inr ?p2))
       [] (Some ''a.b.c'') (Some ''pool'') ''us-east-1'' = (Inr info, ?log) \<and>
     dict_get info ''scope'' = JArr [] \<and> dict_get info ''user_id'' = JStr ''user123''"
    unfolding s2(2) by (intro exI [of _ info]) simp
  have sp: "str_isspace (CHR 0x09)" "''openid'' \<noteq> []"
    "list_all (\<lambda>c. \<not> str_isspace c) ''openid''"
    by (simp_all add: str_isspace_def)
  from C8_user_info_projection [where w = "''openid''" and c = "CHR 0x09" and r = "''profile''"] sp
  have 3: "str_split (''openid'' @ CHR 0x09 # ''profile'') = ''openid'' # str_split ''profile''"
    "str_split (CHR 0x09 # ''profile'') = str_split ''profile''"
    "str_split ''openid'' = [''openid'']"
    by blast+
  from 1 2 3 show ?thesis by (intro conjI)
qed

end
